theory Spec2Isabelle
  imports Complex_Main "HOL-Library.Log_Nat"
begin

section \<open>Data model of the vitals server\<close>

text \<open>
  The server (\<^verbatim>\<open>superbase/functions/server/index.tsx\<close>, the second document of
  \<^verbatim>\<open>src/TECHNICAL_GUIDE.md\<close>) is a set of HTTP handlers over a key-value store.

  A JavaScript number is a double. A number of the model is a rational: the decimal by
  which JavaScript prints the double, as the JSON text of a client or the source carries
  it (\<open>36.1\<close>, \<open>37.2\<close>, \<open>38.5\<close>). Comparisons are made on the decimals, which are
  ordered as the doubles that they print; sums and quotients are made on the doubles and
  rounded to doubles, as the section on double-precision arithmetic defines. A field of an
  object is an \<open>option\<close>: \<open>None\<close> stands
  for \<^verbatim>\<open>undefined\<close> and \<^verbatim>\<open>null\<close>, which every test of the handlers treats alike.
  An instant (\<^verbatim>\<open>new Date()\<close>, \<^verbatim>\<open>Date.now()\<close>, an ISO timestamp string) is its number
  of milliseconds since the epoch.
\<close>

type_synonym number = rat
type_synonym instant = int

text \<open>
  Truthiness of an optional number, as \<^verbatim>\<open>x && ...\<close>, \<^verbatim>\<open>x || null\<close> and \<^verbatim>\<open>!x\<close>
  decide it: \<^verbatim>\<open>undefined\<close>, \<^verbatim>\<open>null\<close> and \<open>0\<close> are falsy.
\<close>

fun truthy :: "number option \<Rightarrow> bool" where
  "truthy None = False"
| "truthy (Some n) = (n \<noteq> 0)"

text \<open>Truthiness of an optional string: the empty string is falsy.\<close>

fun truthy_str :: "string option \<Rightarrow> bool" where
  "truthy_str None = False"
| "truthy_str (Some s) = (s \<noteq> [])"

text \<open>\<^verbatim>\<open>x || null\<close> on an optional number and on an optional string.\<close>

definition or_null :: "number option \<Rightarrow> number option" where
  "or_null x = (if truthy x then x else None)"

definition or_null_str :: "string option \<Rightarrow> string option" where
  "or_null_str x = (if truthy_str x then x else None)"

text \<open>
  The body of \<^verbatim>\<open>POST /vitals\<close>, with the field types that the client declares for
  \<^verbatim>\<open>vitalsAPI.add\<close> in \<^verbatim>\<open>utils/api.tsx\<close>.
\<close>

record vitals_body =
  b_patientId :: "string option"
  b_heartRate :: "number option"
  b_bloodPressure :: "string option"
  b_oxygenLevel :: "number option"
  b_temperature :: "number option"
  b_notes :: "string option"

text \<open>
  A template literal that interpolates a number keeps the number as it is: how JavaScript
  prints a number is no part of the handlers.
\<close>

datatype piece = Txt string | Num number

text \<open>The objects pushed to \<^verbatim>\<open>alerts\<close> by the ingestion handler.\<close>

record alert_draft =
  d_type :: string
  d_severity :: string
  d_value :: number
  d_message :: "piece list"

section \<open>Alert derivation of \<^verbatim>\<open>POST /vitals\<close>\<close>

text \<open>
  \<^verbatim>\<open>if (heartRate && (heartRate < 60 || heartRate > 100)) alerts.push({...})\<close>
\<close>

fun heartRateCheck :: "number option \<Rightarrow> alert_draft list" where
  "heartRateCheck None = []"
| "heartRateCheck (Some heartRate) =
     (if heartRate \<noteq> 0 \<and> (heartRate < 60 \<or> heartRate > 100) then
        [\<lparr> d_type = ''Heart Rate'',
           d_severity = (if heartRate < 40 \<or> heartRate > 120 then ''critical'' else ''warning''),
           d_value = heartRate,
           d_message = [Txt ''Heart rate '',
                        Txt (if heartRate < 60 then ''below'' else ''above''),
                        Txt '' normal range''] \<rparr>]
      else [])"

text \<open>
  \<^verbatim>\<open>if (oxygenLevel && oxygenLevel < 95) alerts.push({...})\<close>
\<close>

fun oxygenLevelCheck :: "number option \<Rightarrow> alert_draft list" where
  "oxygenLevelCheck None = []"
| "oxygenLevelCheck (Some oxygenLevel) =
     (if oxygenLevel \<noteq> 0 \<and> oxygenLevel < 95 then
        [\<lparr> d_type = ''Oxygen Level'',
           d_severity = (if oxygenLevel < 90 then ''critical'' else ''warning''),
           d_value = oxygenLevel,
           d_message = [Txt ''Oxygen saturation below normal ('', Num oxygenLevel, Txt ''%)''] \<rparr>]
      else [])"

text \<open>
  \<^verbatim>\<open>if (temperature && (temperature < 36.1 || temperature > 37.2)) alerts.push({...})\<close>
\<close>

fun temperatureCheck :: "number option \<Rightarrow> alert_draft list" where
  "temperatureCheck None = []"
| "temperatureCheck (Some temperature) =
     (if temperature \<noteq> 0 \<and> (temperature < 36.1 \<or> temperature > 37.2) then
        [\<lparr> d_type = ''Temperature'',
           d_severity = (if temperature < 35 \<or> temperature > 38.5 then ''critical'' else ''warning''),
           d_value = temperature,
           d_message = [Txt ''Body temperature '',
                        Txt (if temperature < 36.1 then ''below'' else ''above''),
                        Txt '' normal range''] \<rparr>]
      else [])"

text \<open>
  The whole block: \<^verbatim>\<open>alerts\<close> starts empty and the three checks push in this order.
  The block reads \<^verbatim>\<open>heartRate\<close>, \<^verbatim>\<open>oxygenLevel\<close> and \<^verbatim>\<open>temperature\<close> of the body;
  \<^verbatim>\<open>bloodPressure\<close> is not read.
\<close>

definition deriveAlerts :: "vitals_body \<Rightarrow> alert_draft list" where
  "deriveAlerts body =
     heartRateCheck (b_heartRate body) @
     oxygenLevelCheck (b_oxygenLevel body) @
     temperatureCheck (b_temperature body)"

text \<open>The alerts of one type among those derived from a body.\<close>

definition alertsOfType :: "string \<Rightarrow> vitals_body \<Rightarrow> alert_draft list" where
  "alertsOfType ty body = filter (\<lambda>a. d_type a = ty) (deriveAlerts body)"

text \<open>A body that reports the given vitals for patient \<open>p1\<close> and nothing else.\<close>

definition body_of ::
  "number option \<Rightarrow> string option \<Rightarrow> number option \<Rightarrow> number option \<Rightarrow> vitals_body" where
  "body_of hr bp o2 temp =
     \<lparr> b_patientId = Some ''p1'', b_heartRate = hr, b_bloodPressure = bp,
       b_oxygenLevel = o2, b_temperature = temp, b_notes = None \<rparr>"

section \<open>The key-value store\<close>

text \<open>
  Modelled from the spec: \<^verbatim>\<open>kv_store.tsx\<close>, which the server imports as \<^verbatim>\<open>kv\<close>, is
  missing. The spec gives its contract: \<^verbatim>\<open>put(key, value)\<close> upserts a value at an exact
  key and fully overwrites an existing one, \<^verbatim>\<open>get(key)\<close> fetches the exact key or
  signals that nothing is there, \<^verbatim>\<open>getByPrefix(prefix)\<close> retrieves all values whose key
  starts with the prefix, in no stated order. The store is a list of key-value pairs, in
  which \<open>kv_set\<close> never makes a second pair for a key and \<open>kv_getByPrefix\<close> answers
  in the order of the list; calls to the store are taken to succeed.
\<close>

type_synonym 'v kv = "(string \<times> 'v) list"

definition kv_get :: "'v kv \<Rightarrow> string \<Rightarrow> 'v option" where
  "kv_get kv key = map_of kv key"

fun kv_set :: "'v kv \<Rightarrow> string \<Rightarrow> 'v \<Rightarrow> 'v kv" where
  "kv_set [] key val = [(key, val)]"
| "kv_set ((k, v) # kv) key val =
     (if k = key then (key, val) # kv else (k, v) # kv_set kv key val)"

fun startsWith :: "string \<Rightarrow> string \<Rightarrow> bool" where
  "startsWith s [] = True"
| "startsWith [] (c # p) = False"
| "startsWith (d # s) (c # p) = (d = c \<and> startsWith s p)"

definition kv_getByPrefix :: "'v kv \<Rightarrow> string \<Rightarrow> 'v list" where
  "kv_getByPrefix kv p = map snd (filter (\<lambda>e. startsWith (fst e) p) kv)"

section \<open>Stored entities\<close>

text \<open>The object stored under \<^verbatim>\<open>vitals:<patientId>:<ms>\<close>.\<close>

record vitalReading =
  v_id :: string
  v_patientId :: string
  v_heartRate :: "number option"
  v_bloodPressure :: "string option"
  v_oxygenLevel :: "number option"
  v_temperature :: "number option"
  v_notes :: string
  v_timestamp :: instant
  v_recordedBy :: string

text \<open>
  The object stored under \<^verbatim>\<open>alert:<patientId>:<ms>-<type>\<close>, but for its
  acknowledgement fields.
\<close>

record alert =
  a_id :: string
  a_patientId :: string
  a_vitalId :: string
  a_type :: string
  a_severity :: string
  a_value :: number
  a_message :: "piece list"
  a_timestamp :: instant

text \<open>The object stored under \<^verbatim>\<open>profile:<userId>\<close> by signup.\<close>

record profile =
  p_id :: string
  p_email :: string
  p_name :: string
  p_role :: string
  p_createdAt :: instant
  p_updatedAt :: instant
  p_age :: "number option"
  p_gender :: "string option"
  p_bloodType :: "string option"
  p_allergies :: "string list option"
  p_medications :: "string list option"
  p_emergencyContact :: "string option"
  p_assignedDoctorId :: "string option"

text \<open>
  A stored value is a JavaScript object of one of the three shapes. The acknowledge
  handler spreads whatever object it finds and sets three more keys, so these keys belong
  to every stored object: \<open>None\<close> when the object does not have the key.
\<close>

datatype shape = Vital vitalReading | Alert alert | Profile profile

record entity =
  shape :: shape
  acknowledged :: "bool option"
  acknowledgedBy :: "string option"
  acknowledgedAt :: "instant option"

definition plain :: "shape \<Rightarrow> entity" where
  "plain s = \<lparr> shape = s, acknowledged = None, acknowledgedBy = None, acknowledgedAt = None \<rparr>"

text \<open>
  Property reads on a stored object. A key that the object does not have reads as
  \<^verbatim>\<open>undefined\<close>.
\<close>

definition heartRateOf :: "entity \<Rightarrow> number option" where
  "heartRateOf e = (case shape e of Vital v \<Rightarrow> v_heartRate v | _ \<Rightarrow> None)"

definition oxygenLevelOf :: "entity \<Rightarrow> number option" where
  "oxygenLevelOf e = (case shape e of Vital v \<Rightarrow> v_oxygenLevel v | _ \<Rightarrow> None)"

definition temperatureOf :: "entity \<Rightarrow> number option" where
  "temperatureOf e = (case shape e of Vital v \<Rightarrow> v_temperature v | _ \<Rightarrow> None)"

definition bloodPressureOf :: "entity \<Rightarrow> string option" where
  "bloodPressureOf e = (case shape e of Vital v \<Rightarrow> v_bloodPressure v | _ \<Rightarrow> None)"

definition timestampOf :: "entity \<Rightarrow> instant option" where
  "timestampOf e =
     (case shape e of Vital v \<Rightarrow> Some (v_timestamp v) | Alert a \<Rightarrow> Some (a_timestamp a)
      | Profile p \<Rightarrow> None)"

definition severityOf :: "entity \<Rightarrow> string option" where
  "severityOf e = (case shape e of Alert a \<Rightarrow> Some (a_severity a) | _ \<Rightarrow> None)"

definition roleOf :: "entity \<Rightarrow> string option" where
  "roleOf e = (case shape e of Profile p \<Rightarrow> Some (p_role p) | _ \<Rightarrow> None)"

section \<open>Requests and responses\<close>

text \<open>
  \<^verbatim>\<open>verifyUser\<close> answers with \<^verbatim>\<open>{ error, status: 401 }\<close> or with \<^verbatim>\<open>{ user }\<close>; of the
  user the handlers read the id only.
\<close>

datatype auth_result = AuthError string | AuthUser string

text \<open>The error responses \<^verbatim>\<open>c.json({ error }, status)\<close> of the handlers modelled here.\<close>

datatype http_error =
    Unauthorized string
  | BadRequest string
  | NotFound string

text \<open>The decimal text of \<^verbatim>\<open>Date.now()\<close> inside a key.\<close>

fun showNat :: "nat \<Rightarrow> string" where
  "showNat n =
     (if n < 10 then [''0123456789'' ! n]
      else showNat (n div 10) @ [''0123456789'' ! (n mod 10)])"

declare showNat.simps [simp del]

definition showInt :: "int \<Rightarrow> string" where
  "showInt i = (if i < 0 then CHR ''-'' # showNat (nat (- i)) else showNat (nat i))"

section \<open>\<^verbatim>\<open>POST /vitals\<close>\<close>

record post_response =
  r_vitalReading :: vitalReading
  r_alerts :: "alert_draft list option"

text \<open>
  The loop that stores the alerts. Each iteration reads \<^verbatim>\<open>Date.now()\<close> for the key;
  \<open>clock i\<close> is the reading of iteration \<open>i\<close>.
\<close>

fun storeAlerts ::
  "string \<Rightarrow> string \<Rightarrow> instant \<Rightarrow> (nat \<Rightarrow> instant) \<Rightarrow> nat \<Rightarrow> alert_draft list \<Rightarrow> entity kv \<Rightarrow> entity kv"
where
  "storeAlerts patientId vitalId timestamp clock i [] kv = kv"
| "storeAlerts patientId vitalId timestamp clock i (alert # rest) kv =
     (let alertId = ''alert:'' @ patientId @ '':'' @ showInt (clock i) @ ''-'' @ d_type alert
      in storeAlerts patientId vitalId timestamp clock (Suc i) rest
           (kv_set kv alertId
              \<lparr> shape = Alert \<lparr> a_id = alertId, a_patientId = patientId, a_vitalId = vitalId,
                                a_type = d_type alert, a_severity = d_severity alert,
                                a_value = d_value alert, a_message = d_message alert,
                                a_timestamp = timestamp \<rparr>,
                acknowledged = Some False, acknowledgedBy = None, acknowledgedAt = None \<rparr>))"

text \<open>The object \<^verbatim>\<open>vitalReading\<close> that the handler builds from the body.\<close>

definition mkVitalReading :: "string \<Rightarrow> string \<Rightarrow> vitals_body \<Rightarrow> instant \<Rightarrow> string \<Rightarrow> vitalReading" where
  "mkVitalReading vitalId patientId body timestamp userId =
     \<lparr> v_id = vitalId,
       v_patientId = patientId,
       v_heartRate = or_null (b_heartRate body),
       v_bloodPressure = or_null_str (b_bloodPressure body),
       v_oxygenLevel = or_null (b_oxygenLevel body),
       v_temperature = or_null (b_temperature body),
       v_notes = (case b_notes body of None \<Rightarrow> [] | Some n \<Rightarrow> n),
       v_timestamp = timestamp,
       v_recordedBy = userId \<rparr>"

text \<open>
  The handler. \<open>timestamp\<close> is the instant of \<^verbatim>\<open>new Date().toISOString()\<close>, \<open>ms\<close>
  the reading of \<^verbatim>\<open>Date.now()\<close> for the id of the reading, \<open>clock\<close> the readings of
  the alert loop. The result is the response and the store after the request.
\<close>

definition postVitals ::
  "auth_result \<Rightarrow> vitals_body \<Rightarrow> instant \<Rightarrow> instant \<Rightarrow> (nat \<Rightarrow> instant) \<Rightarrow> entity kv
     \<Rightarrow> (http_error + post_response) \<times> entity kv" where
  "postVitals authResult body timestamp ms clock kv =
     (case authResult of
        AuthError e \<Rightarrow> (Inl (Unauthorized e), kv)
      | AuthUser userId \<Rightarrow>
          (case b_patientId body of
             None \<Rightarrow> (Inl (BadRequest ''Patient ID is required''), kv)
           | Some patientId \<Rightarrow>
               if patientId = [] then (Inl (BadRequest ''Patient ID is required''), kv)
               else
                 let vitalId = ''vitals:'' @ patientId @ '':'' @ showInt ms;
                     vitalReading = mkVitalReading vitalId patientId body timestamp userId;
                     kv1 = kv_set kv vitalId (plain (Vital vitalReading));
                     alerts = deriveAlerts body;
                     kv2 = storeAlerts patientId vitalId timestamp clock 0 alerts kv1
                 in (Inr \<lparr> r_vitalReading = vitalReading,
                            r_alerts = (if length alerts > 0 then Some alerts else None) \<rparr>,
                     kv2)))"

section \<open>\<^verbatim>\<open>PUT /alerts/:alertId/acknowledge\<close>\<close>

text \<open>
  \<open>now\<close> is the instant of \<^verbatim>\<open>new Date().toISOString()\<close>. A stored value is an object,
  hence truthy: \<^verbatim>\<open>!alert\<close> holds exactly when \<^verbatim>\<open>kv.get\<close> found nothing.
\<close>

definition acknowledge ::
  "auth_result \<Rightarrow> string \<Rightarrow> instant \<Rightarrow> entity kv \<Rightarrow> (http_error + entity) \<times> entity kv" where
  "acknowledge authResult alertId now kv =
     (case authResult of
        AuthError e \<Rightarrow> (Inl (Unauthorized e), kv)
      | AuthUser userId \<Rightarrow>
          (case kv_get kv alertId of
             None \<Rightarrow> (Inl (NotFound ''Alert not found''), kv)
           | Some alert \<Rightarrow>
               let updatedAlert = alert \<lparr> acknowledged := Some True,
                                          acknowledgedBy := Some userId,
                                          acknowledgedAt := Some now \<rparr>
               in (Inr updatedAlert, kv_set kv alertId updatedAlert)))"

section \<open>Double-precision arithmetic\<close>

text \<open>
  The handlers add and divide numbers as JavaScript does, in IEEE 754 binary64 with
  rounding to the nearest double, a tie going to the even significand. A finite double is
  the rational that it denotes; \<open>None\<close> stands for a result that is not finite
  (\<^verbatim>\<open>Infinity\<close>, \<^verbatim>\<open>-Infinity\<close> or \<^verbatim>\<open>NaN\<close>): once a sum is not finite it stays so,
  and the JSON response carries it as \<^verbatim>\<open>null\<close>.
\<close>

text \<open>The binary exponent of a positive rational \<open>a\<close>: \<open>2 ^ e \<le> a < 2 ^ (e + 1)\<close>.\<close>

definition exponentOf :: "rat \<Rightarrow> int" where
  "exponentOf a =
     (let d = bitlen (fst (quotient_of a)) - bitlen (snd (quotient_of a))
      in if 2 powi d \<le> a then d else d - 1)"

text \<open>The nearest integer, a tie going to the even one.\<close>

definition roundEven :: "rat \<Rightarrow> int" where
  "roundEven y =
     (if y - of_int \<lfloor>y\<rfloor> < 1 / 2 then \<lfloor>y\<rfloor>
      else if 1 / 2 < y - of_int \<lfloor>y\<rfloor> then \<lfloor>y\<rfloor> + 1
      else if even \<lfloor>y\<rfloor> then \<lfloor>y\<rfloor> else \<lfloor>y\<rfloor> + 1)"

text \<open>
  The double nearest to a rational: a significand of 53 bits, the least exponent
  \<open>- 1022\<close> (below it the doubles are \<open>2 ^ - 1074\<close> apart), and no finite double from
  \<open>2 ^ 1024\<close> on.
\<close>

definition toDouble :: "rat \<Rightarrow> rat option" where
  "toDouble x =
     (if x = 0 then Some 0
      else
        let ulp = 2 powi (max (exponentOf \<bar>x\<bar>) (- 1022) - 52);
            r = of_int (roundEven (\<bar>x\<bar> / ulp)) * ulp
        in if of_int (2 ^ 1024) \<le> r then None else Some (sgn x * r))"

text \<open>
  \<^verbatim>\<open>sum + v.heartRate\<close>: the accumulator is a double or not finite, the number is the
  decimal of a stored field, read as its double.
\<close>

definition addDouble :: "rat option \<Rightarrow> number \<Rightarrow> rat option" where
  "addDouble acc x =
     (case acc of None \<Rightarrow> None
      | Some s \<Rightarrow> (case toDouble x of None \<Rightarrow> None | Some d \<Rightarrow> toDouble (s + d)))"

text \<open>\<^verbatim>\<open>sum / length\<close>, for a length that is not zero.\<close>

definition divideDouble :: "rat option \<Rightarrow> nat \<Rightarrow> rat option" where
  "divideDouble acc n = (case acc of None \<Rightarrow> None | Some s \<Rightarrow> toDouble (s / of_nat n))"

section \<open>Analytics\<close>

text \<open>
  The calendar methods of \<^verbatim>\<open>Date\<close> that the period switch calls, taken as given:
  the getters read a field of an instant in local time, the setters return the instant
  with that field replaced.
\<close>

record calendar =
  getDate :: "instant \<Rightarrow> int"
  getMonth :: "instant \<Rightarrow> int"
  getFullYear :: "instant \<Rightarrow> int"
  setDate :: "instant \<Rightarrow> int \<Rightarrow> instant"
  setMonth :: "instant \<Rightarrow> int \<Rightarrow> instant"
  setFullYear :: "instant \<Rightarrow> int \<Rightarrow> instant"

text \<open>\<^verbatim>\<open>c.req.query('period') || '7days'\<close>\<close>

definition periodOf :: "string option \<Rightarrow> string" where
  "periodOf q = (case q of None \<Rightarrow> ''7days'' | Some p \<Rightarrow> if p = [] then ''7days'' else p)"

text \<open>
  The period switch of both analytics handlers. \<open>now\<close> is \<^verbatim>\<open>const now = new Date()\<close>
  and \<open>fresh\<close> the instant that \<^verbatim>\<open>let cutoffDate = new Date()\<close> starts with. The switch
  has no \<^verbatim>\<open>default\<close> case.
\<close>

definition cutoffDate :: "calendar \<Rightarrow> instant \<Rightarrow> instant \<Rightarrow> string \<Rightarrow> instant" where
  "cutoffDate cal now fresh period =
     (if period = ''7days'' then setDate cal fresh (getDate cal now - 7)
      else if period = ''30days'' then setDate cal fresh (getDate cal now - 30)
      else if period = ''3months'' then setMonth cal fresh (getMonth cal now - 3)
      else if period = ''1year'' then setFullYear cal fresh (getFullYear cal now - 1)
      else fresh)"

text \<open>
  \<^verbatim>\<open>new Date(v.timestamp) >= cutoffDate\<close>: an object without a timestamp gives an invalid
  date, which compares false.
\<close>

definition sinceCutoff :: "instant \<Rightarrow> entity \<Rightarrow> bool" where
  "sinceCutoff cutoff e = (case timestampOf e of None \<Rightarrow> False | Some t \<Rightarrow> t \<ge> cutoff)"

text \<open>
  The key of the ascending sort of the patient handler; every object that reaches the
  sort has passed the filter and so has a timestamp.
\<close>

definition sortKey :: "entity \<Rightarrow> instant" where
  "sortKey e = (case timestampOf e of None \<Rightarrow> 0 | Some t \<Rightarrow> t)"

text \<open>
  The three tests inside the predicate of \<^verbatim>\<open>normalReadings\<close>, each of the form
  \<^verbatim>\<open>!v.x || (v.x >= lo && v.x <= hi)\<close>: a falsy field passes.
\<close>

definition hrNormal :: "entity \<Rightarrow> bool" where
  "hrNormal v =
     (case heartRateOf v of None \<Rightarrow> True
      | Some heartRate \<Rightarrow> heartRate = 0 \<or> (heartRate \<ge> 60 \<and> heartRate \<le> 100))"

definition o2Normal :: "entity \<Rightarrow> bool" where
  "o2Normal v =
     (case oxygenLevelOf v of None \<Rightarrow> True
      | Some oxygenLevel \<Rightarrow> oxygenLevel = 0 \<or> oxygenLevel \<ge> 95)"

definition tempNormal :: "entity \<Rightarrow> bool" where
  "tempNormal v =
     (case temperatureOf v of None \<Rightarrow> True
      | Some temperature \<Rightarrow> temperature = 0 \<or> (temperature \<ge> 36.1 \<and> temperature \<le> 37.2))"

text \<open>The predicate of \<^verbatim>\<open>normalReadings\<close> in the patient handler.\<close>

definition readingNormal :: "entity \<Rightarrow> bool" where
  "readingNormal v = (hrNormal v \<and> o2Normal v \<and> tempNormal v)"

record patient_stats =
  ps_totalReadings :: nat
  ps_normalReadings :: nat
  ps_totalAlerts :: nat
  ps_criticalAlerts :: nat
  ps_warningAlerts :: nat

definition patientStats :: "entity list \<Rightarrow> entity list \<Rightarrow> patient_stats" where
  "patientStats vitals alerts =
     \<lparr> ps_totalReadings = length vitals,
       ps_normalReadings = length (filter readingNormal vitals),
       ps_totalAlerts = length alerts,
       ps_criticalAlerts = length (filter (\<lambda>a. severityOf a = Some ''critical'') alerts),
       ps_warningAlerts = length (filter (\<lambda>a. severityOf a = Some ''warning'') alerts) \<rparr>"

record patient_analytics =
  pa_vitals :: "entity list"
  pa_alerts :: "entity list"
  pa_stats :: patient_stats

text \<open>\<^verbatim>\<open>GET /analytics/:patientId\<close>\<close>

definition analyticsPatient ::
  "auth_result \<Rightarrow> calendar \<Rightarrow> instant \<Rightarrow> instant \<Rightarrow> string \<Rightarrow> string option \<Rightarrow> entity kv
     \<Rightarrow> http_error + patient_analytics" where
  "analyticsPatient authResult cal now fresh patientId periodQuery kv =
     (case authResult of
        AuthError e \<Rightarrow> Inl (Unauthorized e)
      | AuthUser userId \<Rightarrow>
          let period = periodOf periodQuery;
              allVitals = kv_getByPrefix kv (''vitals:'' @ patientId @ '':'');
              allAlerts = kv_getByPrefix kv (''alert:'' @ patientId @ '':'');
              cutoff = cutoffDate cal now fresh period;
              vitals = sort_key sortKey (filter (sinceCutoff cutoff) allVitals);
              alerts = sort_key sortKey (filter (sinceCutoff cutoff) allAlerts)
          in Inr \<lparr> pa_vitals = vitals, pa_alerts = alerts,
                    pa_stats = patientStats vitals alerts \<rparr>)"

text \<open>
  \<^verbatim>\<open>Math.round\<close> of a finite double: the nearest integer, a half going up. It is exact.
\<close>

definition mathRound :: "rat \<Rightarrow> int" where
  "mathRound x = \<lfloor>x + 1 / 2\<rfloor>"

text \<open>
  The field read inside the reducers: the readings that reach a reducer have passed the
  truthiness filter, so the field is a number; \<^verbatim>\<open>null\<close> would add as \<open>0\<close>.
\<close>

definition numberOf :: "number option \<Rightarrow> number" where
  "numberOf x = (case x of None \<Rightarrow> 0 | Some n \<Rightarrow> n)"

text \<open>
  The expression of \<^verbatim>\<open>avgHeartRate\<close> and \<^verbatim>\<open>avgOxygenLevel\<close>, for the field read by
  \<open>field\<close>: the reducer starts from \<open>0\<close> and adds the fields from the left, the sum is
  divided by the number of readings and rounded. The result is \<open>None\<close> when it is not
  finite.
\<close>

definition average :: "(entity \<Rightarrow> number option) \<Rightarrow> entity list \<Rightarrow> int option" where
  "average field vitals =
     (if length (filter (\<lambda>v. truthy (field v)) vitals) > 0
      then map_option mathRound
             (divideDouble
                (foldl (\<lambda>sum v. addDouble sum (numberOf (field v))) (Some 0)
                   (filter (\<lambda>v. truthy (field v)) vitals))
                (length (filter (\<lambda>v. truthy (field v)) vitals)))
      else Some 0)"

record aggregate_stats =
  as_totalPatients :: nat
  as_totalReadings :: nat
  as_totalAlerts :: nat
  as_criticalAlerts :: nat
  as_warningAlerts :: nat
  as_avgHeartRate :: "int option"
  as_avgOxygenLevel :: "int option"

definition aggregateStats :: "entity list \<Rightarrow> entity list \<Rightarrow> entity list \<Rightarrow> aggregate_stats" where
  "aggregateStats patients vitals alerts =
     \<lparr> as_totalPatients = length patients,
       as_totalReadings = length vitals,
       as_totalAlerts = length alerts,
       as_criticalAlerts = length (filter (\<lambda>a. severityOf a = Some ''critical'') alerts),
       as_warningAlerts = length (filter (\<lambda>a. severityOf a = Some ''warning'') alerts),
       as_avgHeartRate = average heartRateOf vitals,
       as_avgOxygenLevel = average oxygenLevelOf vitals \<rparr>"

record aggregate_analytics =
  aa_vitals :: "entity list"
  aa_alerts :: "entity list"
  aa_stats :: aggregate_stats
  aa_patients :: "entity list"

text \<open>\<^verbatim>\<open>GET /analytics/aggregate/all\<close>\<close>

definition analyticsAggregate ::
  "auth_result \<Rightarrow> calendar \<Rightarrow> instant \<Rightarrow> instant \<Rightarrow> string option \<Rightarrow> entity kv
     \<Rightarrow> http_error + aggregate_analytics" where
  "analyticsAggregate authResult cal now fresh periodQuery kv =
     (case authResult of
        AuthError e \<Rightarrow> Inl (Unauthorized e)
      | AuthUser userId \<Rightarrow>
          let period = periodOf periodQuery;
              allVitals = kv_getByPrefix kv ''vitals:'';
              allAlerts = kv_getByPrefix kv ''alert:'';
              allPatients = kv_getByPrefix kv ''profile:'';
              patients = filter (\<lambda>p. roleOf p = Some ''patient'') allPatients;
              cutoff = cutoffDate cal now fresh period;
              vitals = filter (sinceCutoff cutoff) allVitals;
              alerts = filter (sinceCutoff cutoff) allAlerts
          in Inr \<lparr> aa_vitals = vitals, aa_alerts = alerts,
                    aa_stats = aggregateStats patients vitals alerts,
                    aa_patients = patients \<rparr>)"

section \<open>The bands of the specification\<close>

text \<open>
  The table of the specification, in its own words, to compare the handlers with:
  heart rate is normal in 60--100 and critical below 40 or above 120; oxygen level is
  normal from 95 and critical below 90; temperature is normal in 36.1--37.2 and critical
  below 35 or above 38.5; blood pressure, a string \<open>S/D\<close>, is normal when the systolic
  value is in 90--120 and the diastolic value in 60--80, and has no critical band.
\<close>

definition spec_heartRateNormal :: "number \<Rightarrow> bool" where
  "spec_heartRateNormal h = (60 \<le> h \<and> h \<le> 100)"

definition spec_heartRateCritical :: "number \<Rightarrow> bool" where
  "spec_heartRateCritical h = (h < 40 \<or> h > 120)"

definition spec_oxygenLevelNormal :: "number \<Rightarrow> bool" where
  "spec_oxygenLevelNormal x = (95 \<le> x)"

definition spec_oxygenLevelCritical :: "number \<Rightarrow> bool" where
  "spec_oxygenLevelCritical x = (x < 90)"

definition spec_temperatureNormal :: "number \<Rightarrow> bool" where
  "spec_temperatureNormal t = (36.1 \<le> t \<and> t \<le> 37.2)"

definition spec_temperatureCritical :: "number \<Rightarrow> bool" where
  "spec_temperatureCritical t = (t < 35 \<or> t > 38.5)"

text \<open>The value of a decimal digit, by its place among the ten digits.\<close>

definition digitOf :: "char \<Rightarrow> nat option" where
  "digitOf c = map_of (zip ''0123456789'' [0, 1, 2, 3, 4, 5, 6, 7, 8, 9]) c"

text \<open>The value of a non-empty string of decimal digits, read from the left.\<close>

fun digitsValue :: "nat \<Rightarrow> string \<Rightarrow> nat option" where
  "digitsValue acc [] = Some acc"
| "digitsValue acc (c # cs) =
     (case digitOf c of None \<Rightarrow> None | Some d \<Rightarrow> digitsValue (10 * acc + d) cs)"

definition decimalOf :: "string \<Rightarrow> nat option" where
  "decimalOf s = (if s = [] then None else digitsValue 0 s)"

definition spec_bloodPressureNormal :: "string \<Rightarrow> bool" where
  "spec_bloodPressureNormal bp =
     (case (decimalOf (takeWhile (\<lambda>c. c \<noteq> CHR ''/'') bp),
            decimalOf (drop 1 (dropWhile (\<lambda>c. c \<noteq> CHR ''/'') bp))) of
        (Some sys, Some dia) \<Rightarrow> 90 \<le> sys \<and> sys \<le> 120 \<and> 60 \<le> dia \<and> dia \<le> 80
      | _ \<Rightarrow> False)"

text \<open>
  The number of rules of the table that a body violates: one for each vital that is
  present and outside its normal band.
\<close>

definition spec_violatedRules :: "vitals_body \<Rightarrow> nat" where
  "spec_violatedRules body =
     (case b_heartRate body of None \<Rightarrow> 0
      | Some h \<Rightarrow> if spec_heartRateNormal h then 0 else 1) +
     (case b_oxygenLevel body of None \<Rightarrow> 0
      | Some x \<Rightarrow> if spec_oxygenLevelNormal x then 0 else 1) +
     (case b_temperature body of None \<Rightarrow> 0
      | Some t \<Rightarrow> if spec_temperatureNormal t then 0 else 1) +
     (case b_bloodPressure body of None \<Rightarrow> 0
      | Some bp \<Rightarrow> if spec_bloodPressureNormal bp then 0 else 1)"

text \<open>
  \<open>normalReadings\<close> as the specification words it: the readings in which every present
  vital, blood pressure among them, is within its normal band.
\<close>

definition spec_readingNormal :: "entity \<Rightarrow> bool" where
  "spec_readingNormal v =
     ((case heartRateOf v of None \<Rightarrow> True | Some h \<Rightarrow> spec_heartRateNormal h) \<and>
      (case oxygenLevelOf v of None \<Rightarrow> True | Some x \<Rightarrow> spec_oxygenLevelNormal x) \<and>
      (case temperatureOf v of None \<Rightarrow> True | Some t \<Rightarrow> spec_temperatureNormal t) \<and>
      (case bloodPressureOf v of None \<Rightarrow> True | Some bp \<Rightarrow> spec_bloodPressureNormal bp))"

definition spec_normalReadings :: "entity list \<Rightarrow> nat" where
  "spec_normalReadings vitals = length (filter spec_readingNormal vitals)"

text \<open>
  The same with the blood pressure left out and a vital of \<open>0\<close> taken for an absent
  one.
\<close>

definition spec_threeVitalsNormal :: "entity \<Rightarrow> bool" where
  "spec_threeVitalsNormal v =
     ((case heartRateOf v of None \<Rightarrow> True | Some h \<Rightarrow> h = 0 \<or> spec_heartRateNormal h) \<and>
      (case oxygenLevelOf v of None \<Rightarrow> True | Some x \<Rightarrow> x = 0 \<or> spec_oxygenLevelNormal x) \<and>
      (case temperatureOf v of None \<Rightarrow> True | Some t \<Rightarrow> t = 0 \<or> spec_temperatureNormal t))"

text \<open>
  The averages as the specification words them: the arithmetic mean over the readings
  that have the field, rounded to the nearest integer, and \<open>0\<close> when no reading has it.
\<close>

definition spec_average :: "(entity \<Rightarrow> number option) \<Rightarrow> entity list \<Rightarrow> int" where
  "spec_average field vitals =
     (case filter (\<lambda>v. field v \<noteq> None) vitals of
        [] \<Rightarrow> 0
      | p # ps \<Rightarrow> round (sum_list (map (\<lambda>v. the (field v)) (p # ps)) / of_nat (length (p # ps))))"

text \<open>
  The mean of a list of numbers in double arithmetic: the numbers added from the left,
  starting from \<open>0\<close>, and the sum divided by their count.
\<close>

definition doubleMean :: "number list \<Rightarrow> rat option" where
  "doubleMean xs = divideDouble (foldl addDouble (Some 0) xs) (length xs)"

text \<open>
  The averages with the mean taken in double arithmetic: over the readings that have the
  field, in the order of the list, rounded to the nearest integer, and \<open>0\<close> when no
  reading has it.
\<close>

definition spec_doubleAverage :: "(entity \<Rightarrow> number option) \<Rightarrow> entity list \<Rightarrow> int option" where
  "spec_doubleAverage field vitals =
     (case filter (\<lambda>v. field v \<noteq> None) vitals of
        [] \<Rightarrow> Some 0
      | p # ps \<Rightarrow> map_option round (doubleMean (map (\<lambda>v. the (field v)) (p # ps))))"

text \<open>
  Readings whose field, where present, is a whole number, the absolute values summing to
  less than \<open>2 ^ 52\<close>: on these, double arithmetic is exact enough for the rounded mean.
\<close>

definition wholeVitals :: "(entity \<Rightarrow> number option) \<Rightarrow> entity list \<Rightarrow> bool" where
  "wholeVitals field vitals =
     (list_all (\<lambda>v. of_int \<lfloor>numberOf (field v)\<rfloor> = numberOf (field v)) vitals \<and>
      sum_list (map (\<lambda>v. \<bar>numberOf (field v)\<bar>) vitals) < 2 ^ 52)"

text \<open>
  Whether a key resolves to a stored alert, as the contract of \<open>acknowledge\<close> in the
  specification words its failure.
\<close>

definition spec_resolvesToAlert :: "entity kv \<Rightarrow> string \<Rightarrow> bool" where
  "spec_resolvesToAlert kv key =
     (case kv_get kv key of
        None \<Rightarrow> False
      | Some e \<Rightarrow> (case shape e of Alert a \<Rightarrow> True | _ \<Rightarrow> False))"

section \<open>Stored readings never hold a zero\<close>

text \<open>
  The ingestion handler stores each vital as \<^verbatim>\<open>x || null\<close>, so no stored object has a
  vital equal to \<open>0\<close>.
\<close>

definition zeroFree :: "entity \<Rightarrow> bool" where
  "zeroFree e =
     (heartRateOf e \<noteq> Some 0 \<and> oxygenLevelOf e \<noteq> Some 0 \<and> temperatureOf e \<noteq> Some 0)"

definition storeZeroFree :: "entity kv \<Rightarrow> bool" where
  "storeZeroFree kv = list_all (\<lambda>e. zeroFree (snd e)) kv"

section \<open>Example data\<close>

text \<open>
  A calendar for the examples: days of 86400000 ms counted from the epoch, months of 30
  days, years of 365 days.
\<close>

definition exampleCalendar :: calendar where
  "exampleCalendar =
     \<lparr> getDate = (\<lambda>t. t div 86400000),
       getMonth = (\<lambda>t. t div 2592000000),
       getFullYear = (\<lambda>t. t div 31536000000),
       setDate = (\<lambda>t d. d * 86400000 + t mod 86400000),
       setMonth = (\<lambda>t m. m * 2592000000 + t mod 2592000000),
       setFullYear = (\<lambda>t y. y * 31536000000 + t mod 31536000000) \<rparr>"

text \<open>A stored reading of patient \<open>p1\<close> with the given vitals, taken at instant 1000.\<close>

definition reading_of ::
  "number option \<Rightarrow> string option \<Rightarrow> number option \<Rightarrow> number option \<Rightarrow> entity" where
  "reading_of hr bp o2 temp =
     plain (Vital \<lparr> v_id = ''vitals:p1:1000'', v_patientId = ''p1'', v_heartRate = hr,
                    v_bloodPressure = bp, v_oxygenLevel = o2, v_temperature = temp,
                    v_notes = [], v_timestamp = 1000, v_recordedBy = ''d1'' \<rparr>)"

text \<open>A profile of a patient, as signup stores it.\<close>

definition exampleProfile :: entity where
  "exampleProfile =
     plain (Profile \<lparr> p_id = ''u1'', p_email = ''u1@example.org'', p_name = ''Pat'',
                      p_role = ''patient'', p_createdAt = 500, p_updatedAt = 500,
                      p_age = None, p_gender = None, p_bloodType = None,
                      p_allergies = Some [], p_medications = Some [],
                      p_emergencyContact = None, p_assignedDoctorId = None \<rparr>)"

text \<open>
  The store after doctor \<open>d1\<close> has posted, at instant 1000, a reading of patient \<open>p1\<close>
  with heart rate 45 into a store that holds the profile.
\<close>

definition exampleStore :: "entity kv" where
  "exampleStore =
     snd (postVitals (AuthUser ''d1'') (body_of (Some 45) None None None) 1000 1000
            (\<lambda>i. 1000) [(''profile:u1'', exampleProfile)])"

text \<open>
  The store after doctor \<open>d1\<close> has posted three readings of patient \<open>p1\<close> into an empty
  store, at instants 1000, 1001 and 1002, with the given bodies.
\<close>

definition storeOfThree :: "vitals_body \<Rightarrow> vitals_body \<Rightarrow> vitals_body \<Rightarrow> entity kv" where
  "storeOfThree b1 b2 b3 =
     snd (postVitals (AuthUser ''d1'') b3 1002 1002 (\<lambda>i. 1002)
       (snd (postVitals (AuthUser ''d1'') b2 1001 1001 (\<lambda>i. 1001)
         (snd (postVitals (AuthUser ''d1'') b1 1000 1000 (\<lambda>i. 1000) [])))))"

text \<open>Heart rates 60 and 100, and a reading without a heart rate.\<close>

definition wholeStore :: "entity kv" where
  "wholeStore =
     storeOfThree (body_of (Some 60) None None None) (body_of (Some 100) None None None)
       (body_of None None (Some 98) None)"

text \<open>Heart rates 64.1, 64.3 and 65.1.\<close>

definition fractionStore :: "entity kv" where
  "fractionStore =
     storeOfThree (body_of (Some 64.1) None None None) (body_of (Some 64.3) None None None)
       (body_of (Some 65.1) None None None)"

text \<open>
  Heart rates 64.5 and 64.49999999999999, which is the decimal of the double next below
  64.5, and a reading without a heart rate.
\<close>

definition tieStore :: "entity kv" where
  "tieStore =
     storeOfThree (body_of (Some 64.5) None None None)
       (body_of (Some 64.49999999999999) None None None) (body_of None None (Some 98) None)"

section \<open>Facts about the alert derivation\<close>

lemma alertsOfType_heartRate:
  "alertsOfType ''Heart Rate'' body = heartRateCheck (b_heartRate body)"
  by (cases "b_heartRate body"; cases "b_oxygenLevel body"; cases "b_temperature body")
     (simp_all add: alertsOfType_def deriveAlerts_def)

lemma alertsOfType_oxygenLevel:
  "alertsOfType ''Oxygen Level'' body = oxygenLevelCheck (b_oxygenLevel body)"
  by (cases "b_heartRate body"; cases "b_oxygenLevel body"; cases "b_temperature body")
     (simp_all add: alertsOfType_def deriveAlerts_def)

lemma alertsOfType_temperature:
  "alertsOfType ''Temperature'' body = temperatureCheck (b_temperature body)"
  by (cases "b_heartRate body"; cases "b_oxygenLevel body"; cases "b_temperature body")
     (simp_all add: alertsOfType_def deriveAlerts_def)

lemma heartRateCheck_type: "a \<in> set (heartRateCheck x) \<Longrightarrow> d_type a = ''Heart Rate''"
  by (cases x) (auto split: if_splits)

lemma oxygenLevelCheck_type: "a \<in> set (oxygenLevelCheck x) \<Longrightarrow> d_type a = ''Oxygen Level''"
  by (cases x) (auto split: if_splits)

lemma temperatureCheck_type: "a \<in> set (temperatureCheck x) \<Longrightarrow> d_type a = ''Temperature''"
  by (cases x) (auto split: if_splits)

lemma deriveAlerts_types:
  "a \<in> set (deriveAlerts body) \<Longrightarrow>
     d_type a = ''Heart Rate'' \<or> d_type a = ''Oxygen Level'' \<or> d_type a = ''Temperature''"
  unfolding deriveAlerts_def
  using heartRateCheck_type oxygenLevelCheck_type temperatureCheck_type by auto

lemma alertsOfType_bloodPressure: "alertsOfType ''Blood Pressure'' body = []"
proof -
  have "d_type a \<noteq> ''Blood Pressure''" if "a \<in> set (deriveAlerts body)" for a
    using deriveAlerts_types [OF that] by auto
  then show ?thesis
    by (simp add: alertsOfType_def filter_empty_conv)
qed

text \<open>
  What the handler answers and stores for an authenticated request with a patient id: the
  reading built from the body, and the derived alerts, or \<^verbatim>\<open>null\<close> when there is none.
\<close>

lemma postVitals_response:
  "patientId \<noteq> [] \<Longrightarrow> b_patientId body = Some patientId \<Longrightarrow>
   fst (postVitals (AuthUser userId) body timestamp ms clock kv) =
     Inr \<lparr> r_vitalReading =
                mkVitalReading (''vitals:'' @ patientId @ '':'' @ showInt ms) patientId body
                  timestamp userId,
              r_alerts = (if deriveAlerts body = [] then None else Some (deriveAlerts body)) \<rparr>"
  by (simp add: postVitals_def Let_def)

section \<open>Heart rate\<close>

text \<open>
  C1, as amended. A heart rate in 60--100 gives no Heart Rate alert; a heart rate of 105
  gives exactly one, a warning; a heart rate of 45 gives exactly one, and it is a warning
  too: the handler calls a heart rate critical only below 40 or above 120.
\<close>

theorem heartRate_alert_severity:
  "(b_heartRate body = Some h \<and> 60 \<le> h \<and> h \<le> 100 \<longrightarrow> alertsOfType ''Heart Rate'' body = []) \<and>
   (b_heartRate body = Some 45 \<longrightarrow>
      map d_severity (alertsOfType ''Heart Rate'' body) = [''warning'']) \<and>
   (b_heartRate body = Some 105 \<longrightarrow>
      map d_severity (alertsOfType ''Heart Rate'' body) = [''warning''])"
  by (simp add: alertsOfType_heartRate)

theorem heartRate_alert_severity_witness:
  "alertsOfType ''Heart Rate'' (body_of (Some 72) None None None) = [] \<and>
   map d_severity (alertsOfType ''Heart Rate'' (body_of (Some 45) None None None)) = [''warning''] \<and>
   map d_severity (alertsOfType ''Heart Rate'' (body_of (Some 105) None None None)) = [''warning'']"
proof -
  have a: "b_heartRate (body_of (Some 72) None None None) = Some 72 \<and> (60::rat) \<le> 72 \<and> (72::rat) \<le> 100"
    by (simp add: body_of_def)
  have b: "b_heartRate (body_of (Some 45) None None None) = Some 45"
    by (simp add: body_of_def)
  have c: "b_heartRate (body_of (Some 105) None None None) = Some 105"
    by (simp add: body_of_def)
  from a b c
    heartRate_alert_severity [of "body_of (Some 72) None None None" 72]
    heartRate_alert_severity [of "body_of (Some 45) None None None" 0]
    heartRate_alert_severity [of "body_of (Some 105) None None None" 0]
  show ?thesis by blast
qed

text \<open>
  C1 as the specification states it fails at a heart rate of 45: the one Heart Rate alert
  has severity \<open>warning\<close>, not \<open>critical\<close>.
\<close>

theorem heartRate_45_not_critical:
  "map d_severity (alertsOfType ''Heart Rate'' (body_of (Some 45) None None None)) = [''warning''] \<and>
   map d_severity (alertsOfType ''Heart Rate'' (body_of (Some 45) None None None)) \<noteq> [''critical'']"
  by (simp add: alertsOfType_heartRate body_of_def)

section \<open>Blood pressure\<close>

lemma kv_set_entries: "set (kv_set kv key val) \<subseteq> insert (key, val) (set kv)"
  by (induction kv key val rule: kv_set.induct) auto

lemma storeAlerts_entries:
  "(k, e) \<in> set (storeAlerts patientId vitalId timestamp clock i alerts kv) \<Longrightarrow>
     (k, e) \<in> set kv \<or>
     (\<exists>d a. d \<in> set alerts \<and> shape e = Alert a \<and> a_type a = d_type d \<and>
            a_severity a = d_severity d)"
proof (induction alerts arbitrary: i kv)
  case Nil
  then show ?case by simp
next
  case (Cons d rest)
  let ?k = "''alert:'' @ patientId @ '':'' @ showInt (clock i) @ ''-'' @ d_type d"
  let ?e = "\<lparr> shape = Alert \<lparr> a_id = ?k, a_patientId = patientId, a_vitalId = vitalId,
                              a_type = d_type d, a_severity = d_severity d,
                              a_value = d_value d, a_message = d_message d,
                              a_timestamp = timestamp \<rparr>,
              acknowledged = Some False, acknowledgedBy = None, acknowledgedAt = None \<rparr>"
  from Cons.prems
  have "(k, e) \<in> set (storeAlerts patientId vitalId timestamp clock (Suc i) rest (kv_set kv ?k ?e))"
    by (simp add: Let_def)
  from Cons.IH [OF this]
  consider "(k, e) \<in> set (kv_set kv ?k ?e)"
    | "\<exists>d a. d \<in> set rest \<and> shape e = Alert a \<and> a_type a = d_type d \<and> a_severity a = d_severity d"
    by blast
  then show ?case
  proof cases
    case 1
    with kv_set_entries [of kv ?k ?e] have "(k, e) = (?k, ?e) \<or> (k, e) \<in> set kv"
      by auto
    then show ?thesis
    proof
      assume "(k, e) = (?k, ?e)"
      then have "shape e = Alert \<lparr> a_id = ?k, a_patientId = patientId, a_vitalId = vitalId,
                              a_type = d_type d, a_severity = d_severity d,
                              a_value = d_value d, a_message = d_message d,
                              a_timestamp = timestamp \<rparr>"
        by simp
      then show ?thesis
        by (intro disjI2 exI [of _ d]) auto
    next
      assume "(k, e) \<in> set kv"
      then show ?thesis by simp
    qed
  next
    case 2
    then show ?thesis by auto
  qed
qed

lemma postVitals_entries:
  assumes "(k, e) \<in> set (snd (postVitals authResult body timestamp ms clock kv))"
  shows "(k, e) \<in> set kv \<or> (\<exists>v. shape e = Vital v) \<or>
         (\<exists>d a. d \<in> set (deriveAlerts body) \<and> shape e = Alert a \<and> a_type a = d_type d \<and>
                a_severity a = d_severity d)"
proof (cases authResult)
  case (AuthError m)
  with assms show ?thesis by (simp add: postVitals_def)
next
  case (AuthUser userId)
  show ?thesis
  proof (cases "b_patientId body")
    case None
    with AuthUser assms show ?thesis by (simp add: postVitals_def)
  next
    case (Some patientId)
    show ?thesis
    proof (cases "patientId = []")
      case True
      with Some AuthUser assms show ?thesis by (simp add: postVitals_def)
    next
      case False
      let ?vid = "''vitals:'' @ patientId @ '':'' @ showInt ms"
      let ?v = "plain (Vital (mkVitalReading ?vid patientId body timestamp userId))"
      from False Some AuthUser assms
      have "(k, e) \<in> set (storeAlerts patientId ?vid timestamp clock 0 (deriveAlerts body)
                             (kv_set kv ?vid ?v))"
        by (simp add: postVitals_def Let_def)
      from storeAlerts_entries [OF this]
      consider "(k, e) \<in> set (kv_set kv ?vid ?v)"
        | "\<exists>d a. d \<in> set (deriveAlerts body) \<and> shape e = Alert a \<and> a_type a = d_type d \<and>
                 a_severity a = d_severity d"
        by blast
      then show ?thesis
      proof cases
        case 1
        with kv_set_entries [of kv ?vid ?v] have "(k, e) = (?vid, ?v) \<or> (k, e) \<in> set kv"
          by auto
        then show ?thesis by (auto simp: plain_def)
      next
        case 2
        then show ?thesis by blast
      qed
    qed
  qed
qed

text \<open>
  C2, as amended. The alert derivation does not read the blood pressure of the body:
  whatever the blood pressure is, no Blood Pressure alert is derived, the derived alerts
  are those of the same body with any other blood pressure, and every Blood Pressure
  alert in the store after the request (of any severity) was in the store before it.
\<close>

theorem bloodPressure_never_alerts:
  "alertsOfType ''Blood Pressure'' body = [] \<and>
   deriveAlerts (body \<lparr> b_bloodPressure := bp \<rparr>) = deriveAlerts body \<and>
   ((k, e) \<in> set (snd (postVitals authResult body timestamp ms clock kv)) \<and>
    shape e = Alert a \<and> a_type a = ''Blood Pressure'' \<longrightarrow> (k, e) \<in> set kv)"
proof (intro conjI impI)
  show "alertsOfType ''Blood Pressure'' body = []"
    by (rule alertsOfType_bloodPressure)
  show "deriveAlerts (body \<lparr> b_bloodPressure := bp \<rparr>) = deriveAlerts body"
    by (simp add: deriveAlerts_def)
  assume h: "(k, e) \<in> set (snd (postVitals authResult body timestamp ms clock kv)) \<and>
             shape e = Alert a \<and> a_type a = ''Blood Pressure''"
  then have "(k, e) \<in> set kv \<or> (\<exists>v. shape e = Vital v) \<or>
         (\<exists>d a. d \<in> set (deriveAlerts body) \<and> shape e = Alert a \<and> a_type a = d_type d \<and>
                a_severity a = d_severity d)"
    using postVitals_entries by blast
  then consider "(k, e) \<in> set kv" | "\<exists>v. shape e = Vital v"
    | "\<exists>d a. d \<in> set (deriveAlerts body) \<and> shape e = Alert a \<and> a_type a = d_type d \<and>
             a_severity a = d_severity d"
    by blast
  then show "(k, e) \<in> set kv"
  proof cases
    case 1
    then show ?thesis .
  next
    case 2
    with h show ?thesis by auto
  next
    case 3
    then obtain d a' where d: "d \<in> set (deriveAlerts body)" and "shape e = Alert a'"
      and "a_type a' = d_type d"
      by blast
    with h have "d_type d = ''Blood Pressure''" by simp
    with deriveAlerts_types [OF d] show ?thesis by simp
  qed
qed

lemma showInt_1000: "showInt 1000 = ''1000''"
  by (simp add: showInt_def showNat.simps)

text \<open>An alert of type Blood Pressure, which no handler creates, put into a store by hand.\<close>

theorem bloodPressure_never_alerts_witness:
  "alertsOfType ''Blood Pressure'' (body_of None (Some ''150/95'') None None) = [] \<and>
   deriveAlerts (body_of None (Some ''150/95'') None None \<lparr> b_bloodPressure := Some ''110/70'' \<rparr>)
     = deriveAlerts (body_of None (Some ''150/95'') None None) \<and>
   (''k'', plain (Alert \<lparr> a_id = ''k'', a_patientId = ''p1'', a_vitalId = ''v'',
                          a_type = ''Blood Pressure'', a_severity = ''warning'', a_value = 150,
                          a_message = [], a_timestamp = 7 \<rparr>))
     \<in> set (snd (postVitals (AuthUser ''d1'') (body_of None (Some ''150/95'') None None)
                   1000 1000 (\<lambda>i. 1000)
                   [(''k'', plain (Alert \<lparr> a_id = ''k'', a_patientId = ''p1'', a_vitalId = ''v'',
                          a_type = ''Blood Pressure'', a_severity = ''warning'', a_value = 150,
                          a_message = [], a_timestamp = 7 \<rparr>))]))"
  using bloodPressure_never_alerts
    [of "body_of None (Some ''150/95'') None None" "Some ''110/70''" "''k''"
        "plain (Alert \<lparr> a_id = ''k'', a_patientId = ''p1'', a_vitalId = ''v'',
                          a_type = ''Blood Pressure'', a_severity = ''warning'', a_value = 150,
                          a_message = [], a_timestamp = 7 \<rparr>)"
        "AuthUser ''d1''" 1000 1000 "\<lambda>i. 1000"
        "[(''k'', plain (Alert \<lparr> a_id = ''k'', a_patientId = ''p1'', a_vitalId = ''v'',
                          a_type = ''Blood Pressure'', a_severity = ''warning'', a_value = 150,
                          a_message = [], a_timestamp = 7 \<rparr>))]"
        "\<lparr> a_id = ''k'', a_patientId = ''p1'', a_vitalId = ''v'',
                          a_type = ''Blood Pressure'', a_severity = ''warning'', a_value = 150,
                          a_message = [], a_timestamp = 7 \<rparr>"]
  by (simp add: postVitals_def body_of_def deriveAlerts_def plain_def showInt_1000 Let_def)

text \<open>
  C2 as the specification states it fails for a body whose only vital is the blood
  pressure \<open>150/95\<close>, outside the normal band: no alert is derived, and the store after
  the request holds the reading alone.
\<close>

theorem bloodPressure_out_of_range_no_alert:
  "\<not> spec_bloodPressureNormal ''150/95'' \<and>
   alertsOfType ''Blood Pressure'' (body_of None (Some ''150/95'') None None) = [] \<and>
   postVitals (AuthUser ''d1'') (body_of None (Some ''150/95'') None None) 1000 1000 (\<lambda>i. 1000) []
     = (Inr \<lparr> r_vitalReading =
                 \<lparr> v_id = ''vitals:p1:1000'', v_patientId = ''p1'', v_heartRate = None,
                   v_bloodPressure = Some ''150/95'', v_oxygenLevel = None,
                   v_temperature = None, v_notes = [], v_timestamp = 1000,
                   v_recordedBy = ''d1'' \<rparr>,
               r_alerts = None \<rparr>,
        [(''vitals:p1:1000'', reading_of None (Some ''150/95'') None None)])"
  by (simp add: spec_bloodPressureNormal_def decimalOf_def digitOf_def alertsOfType_def deriveAlerts_def
      body_of_def postVitals_def mkVitalReading_def or_null_def or_null_str_def reading_of_def
      showInt_1000 Let_def)

section \<open>Critical takes precedence over warning\<close>

text \<open>
  C6, as amended. A vital whose value is not zero and satisfies the critical predicate of
  the table gives exactly one alert of its type, of severity critical, hence no warning
  for the same vital; a body whose only vital is a temperature of 39 gives exactly one
  alert, a critical Temperature alert.
\<close>

theorem critical_exactly_one_alert:
  "(b_heartRate body = Some h \<and> h \<noteq> 0 \<and> spec_heartRateCritical h \<longrightarrow>
      map d_severity (alertsOfType ''Heart Rate'' body) = [''critical'']) \<and>
   (b_oxygenLevel body = Some x \<and> x \<noteq> 0 \<and> spec_oxygenLevelCritical x \<longrightarrow>
      map d_severity (alertsOfType ''Oxygen Level'' body) = [''critical'']) \<and>
   (b_temperature body = Some t \<and> t \<noteq> 0 \<and> spec_temperatureCritical t \<longrightarrow>
      map d_severity (alertsOfType ''Temperature'' body) = [''critical'']) \<and>
   map (\<lambda>a. (d_type a, d_severity a)) (deriveAlerts (body_of None None None (Some 39)))
     = [(''Temperature'', ''critical'')]"
proof (intro conjI impI)
  assume "b_heartRate body = Some h \<and> h \<noteq> 0 \<and> spec_heartRateCritical h"
  then show "map d_severity (alertsOfType ''Heart Rate'' body) = [''critical'']"
    by (auto simp: alertsOfType_heartRate spec_heartRateCritical_def)
next
  assume "b_oxygenLevel body = Some x \<and> x \<noteq> 0 \<and> spec_oxygenLevelCritical x"
  then show "map d_severity (alertsOfType ''Oxygen Level'' body) = [''critical'']"
    by (auto simp: alertsOfType_oxygenLevel spec_oxygenLevelCritical_def)
next
  assume "b_temperature body = Some t \<and> t \<noteq> 0 \<and> spec_temperatureCritical t"
  then show "map d_severity (alertsOfType ''Temperature'' body) = [''critical'']"
    by (auto simp: alertsOfType_temperature spec_temperatureCritical_def)
next
  show "map (\<lambda>a. (d_type a, d_severity a)) (deriveAlerts (body_of None None None (Some 39)))
     = [(''Temperature'', ''critical'')]"
    by (simp add: deriveAlerts_def body_of_def)
qed

theorem critical_exactly_one_alert_witness:
  "map d_severity (alertsOfType ''Heart Rate'' (body_of (Some 130) None (Some 85) (Some 39)))
     = [''critical''] \<and>
   map d_severity (alertsOfType ''Oxygen Level'' (body_of (Some 130) None (Some 85) (Some 39)))
     = [''critical''] \<and>
   map d_severity (alertsOfType ''Temperature'' (body_of (Some 130) None (Some 85) (Some 39)))
     = [''critical'']"
proof -
  have "b_heartRate (body_of (Some 130) None (Some 85) (Some 39)) = Some 130 \<and>
        (130::rat) \<noteq> 0 \<and> spec_heartRateCritical 130"
    by (simp add: body_of_def spec_heartRateCritical_def)
  moreover have "b_oxygenLevel (body_of (Some 130) None (Some 85) (Some 39)) = Some 85 \<and>
        (85::rat) \<noteq> 0 \<and> spec_oxygenLevelCritical 85"
    by (simp add: body_of_def spec_oxygenLevelCritical_def)
  moreover have "b_temperature (body_of (Some 130) None (Some 85) (Some 39)) = Some 39 \<and>
        (39::rat) \<noteq> 0 \<and> spec_temperatureCritical 39"
    by (simp add: body_of_def spec_temperatureCritical_def)
  ultimately show ?thesis
    using critical_exactly_one_alert [of "body_of (Some 130) None (Some 85) (Some 39)" 130 85 39]
    by blast
qed

text \<open>
  C6 as the specification states it fails at the value 0: a heart rate of 0 satisfies the
  critical predicate, and the handler, which takes 0 for an absent field, derives no
  alert from it.
\<close>

theorem critical_zero_no_alert:
  "spec_heartRateCritical 0 \<and>
   alertsOfType ''Heart Rate'' (body_of (Some 0) None None None) = [] \<and>
   deriveAlerts (body_of (Some 0) None None None) = []"
  by (simp add: spec_heartRateCritical_def alertsOfType_def deriveAlerts_def body_of_def)

section \<open>One alert for each abnormal vital\<close>

lemma heartRateCheck_length:
  "length (heartRateCheck x) =
     (case x of None \<Rightarrow> 0 | Some h \<Rightarrow> if h = 0 \<or> spec_heartRateNormal h then 0 else 1)"
  by (cases x) (auto simp: spec_heartRateNormal_def)

lemma oxygenLevelCheck_length:
  "length (oxygenLevelCheck x) =
     (case x of None \<Rightarrow> 0 | Some h \<Rightarrow> if h = 0 \<or> spec_oxygenLevelNormal h then 0 else 1)"
  by (cases x) (auto simp: spec_oxygenLevelNormal_def)

lemma temperatureCheck_length:
  "length (temperatureCheck x) =
     (case x of None \<Rightarrow> 0 | Some h \<Rightarrow> if h = 0 \<or> spec_temperatureNormal h then 0 else 1)"
  by (cases x) (auto simp: spec_temperatureNormal_def)

lemma deriveAlerts_at_most_violated: "length (deriveAlerts body) \<le> spec_violatedRules body"
  by (simp add: deriveAlerts_def spec_violatedRules_def heartRateCheck_length
      oxygenLevelCheck_length temperatureCheck_length split: option.splits)

text \<open>
  C7, as amended. The derived alerts are the Heart Rate alerts, then the Oxygen Level
  alerts, then the Temperature alerts; of each type there is exactly one when the vital
  is present, not zero and outside its normal band, and none otherwise; there is never a
  Blood Pressure alert. So a body with several such vitals gets one alert for each of
  them and no combined alert, a body that violates no rule of the table gets no alert,
  and a heart rate of 45 with an oxygen level of 89 gives exactly two alerts.
\<close>

theorem one_alert_per_abnormal_vital:
  "deriveAlerts body =
     alertsOfType ''Heart Rate'' body @ alertsOfType ''Oxygen Level'' body @
     alertsOfType ''Temperature'' body \<and>
   length (alertsOfType ''Heart Rate'' body) =
     (case b_heartRate body of None \<Rightarrow> 0
      | Some h \<Rightarrow> if h = 0 \<or> spec_heartRateNormal h then 0 else 1) \<and>
   length (alertsOfType ''Oxygen Level'' body) =
     (case b_oxygenLevel body of None \<Rightarrow> 0
      | Some x \<Rightarrow> if x = 0 \<or> spec_oxygenLevelNormal x then 0 else 1) \<and>
   length (alertsOfType ''Temperature'' body) =
     (case b_temperature body of None \<Rightarrow> 0
      | Some t \<Rightarrow> if t = 0 \<or> spec_temperatureNormal t then 0 else 1) \<and>
   alertsOfType ''Blood Pressure'' body = [] \<and>
   (spec_violatedRules body = 0 \<longrightarrow> deriveAlerts body = []) \<and>
   map d_type (deriveAlerts (body_of (Some 45) None (Some 89) None))
     = [''Heart Rate'', ''Oxygen Level'']"
proof (intro conjI impI)
  show "deriveAlerts body =
     alertsOfType ''Heart Rate'' body @ alertsOfType ''Oxygen Level'' body @
     alertsOfType ''Temperature'' body"
    by (simp add: alertsOfType_heartRate alertsOfType_oxygenLevel alertsOfType_temperature
        deriveAlerts_def)
  show "length (alertsOfType ''Heart Rate'' body) =
     (case b_heartRate body of None \<Rightarrow> 0
      | Some h \<Rightarrow> if h = 0 \<or> spec_heartRateNormal h then 0 else 1)"
    by (simp only: alertsOfType_heartRate heartRateCheck_length)
  show "length (alertsOfType ''Oxygen Level'' body) =
     (case b_oxygenLevel body of None \<Rightarrow> 0
      | Some x \<Rightarrow> if x = 0 \<or> spec_oxygenLevelNormal x then 0 else 1)"
    by (simp only: alertsOfType_oxygenLevel oxygenLevelCheck_length)
  show "length (alertsOfType ''Temperature'' body) =
     (case b_temperature body of None \<Rightarrow> 0
      | Some t \<Rightarrow> if t = 0 \<or> spec_temperatureNormal t then 0 else 1)"
    by (simp only: alertsOfType_temperature temperatureCheck_length)
  show "alertsOfType ''Blood Pressure'' body = []"
    by (rule alertsOfType_bloodPressure)
  show "deriveAlerts body = []" if "spec_violatedRules body = 0"
    using deriveAlerts_at_most_violated [of body] that by simp
  show "map d_type (deriveAlerts (body_of (Some 45) None (Some 89) None))
     = [''Heart Rate'', ''Oxygen Level'']"
    by (simp add: deriveAlerts_def body_of_def)
qed

theorem one_alert_per_abnormal_vital_witness:
  "spec_violatedRules (body_of (Some 72) (Some ''110/70'') (Some 98) (Some 36.6)) = 0 \<and>
   deriveAlerts (body_of (Some 72) (Some ''110/70'') (Some 98) (Some 36.6)) = []"
proof -
  have v: "spec_violatedRules (body_of (Some 72) (Some ''110/70'') (Some 98) (Some 36.6)) = 0"
    by (simp add: spec_violatedRules_def body_of_def spec_heartRateNormal_def
        spec_oxygenLevelNormal_def spec_temperatureNormal_def spec_bloodPressureNormal_def
        decimalOf_def digitOf_def)
  with one_alert_per_abnormal_vital [of "body_of (Some 72) (Some ''110/70'') (Some 98) (Some 36.6)"]
  show ?thesis
    by blast
qed

text \<open>
  C7 as the specification states it fails for a body with a heart rate of 0 and a blood
  pressure of \<open>150/95\<close>: it violates two rules of the table and no alert is derived.
\<close>

theorem violated_rules_without_alerts:
  "spec_violatedRules (body_of (Some 0) (Some ''150/95'') None None) = 2 \<and>
   deriveAlerts (body_of (Some 0) (Some ''150/95'') None None) = []"
  by (simp add: spec_violatedRules_def body_of_def spec_heartRateNormal_def
      spec_bloodPressureNormal_def decimalOf_def digitOf_def deriveAlerts_def)

section \<open>Acknowledging\<close>

lemma kv_get_kv_set: "kv_get (kv_set kv key val) k = (if k = key then Some val else kv_get kv k)"
  unfolding kv_get_def
  by (induction kv key val rule: kv_set.induct) auto

lemma exampleStore_entries:
  "exampleStore =
     [(''profile:u1'', exampleProfile),
      (''vitals:p1:1000'', reading_of (Some 45) None None None),
      (''alert:p1:1000-Heart Rate'',
       \<lparr> shape = Alert \<lparr> a_id = ''alert:p1:1000-Heart Rate'', a_patientId = ''p1'',
                         a_vitalId = ''vitals:p1:1000'', a_type = ''Heart Rate'',
                         a_severity = ''warning'', a_value = 45,
                         a_message = [Txt ''Heart rate '', Txt ''below'', Txt '' normal range''],
                         a_timestamp = 1000 \<rparr>,
         acknowledged = Some False, acknowledgedBy = None, acknowledgedAt = None \<rparr>)]"
  by (simp add: exampleStore_def postVitals_def body_of_def deriveAlerts_def Let_def
      mkVitalReading_def or_null_def or_null_str_def reading_of_def showInt_1000)

lemma acknowledge_found:
  "kv_get kv alertId = Some alert \<Longrightarrow>
   acknowledge (AuthUser actorId) alertId now kv =
     (Inr (alert \<lparr> acknowledged := Some True, acknowledgedBy := Some actorId,
                   acknowledgedAt := Some now \<rparr>),
      kv_set kv alertId (alert \<lparr> acknowledged := Some True, acknowledgedBy := Some actorId,
                                acknowledgedAt := Some now \<rparr>))"
  by (simp add: acknowledge_def Let_def)

lemma acknowledge_missing:
  "kv_get kv alertId = None \<Longrightarrow>
   acknowledge (AuthUser actorId) alertId now kv = (Inl (NotFound ''Alert not found''), kv)"
  by (simp add: acknowledge_def)

text \<open>
  C8, as amended. For an authenticated caller, \<open>acknowledge\<close> fails with NotFound exactly
  when nothing is stored under \<open>alertId\<close>. When something is stored there, it returns
  that object with \<open>acknowledged = true\<close> and the caller and the time of the call, and
  stores it; acknowledging again leaves \<open>acknowledged = true\<close> and overwrites
  \<open>acknowledgedBy\<close> and \<open>acknowledgedAt\<close> with the second caller and the second time.
\<close>

theorem acknowledge_contract:
  "(fst (acknowledge (AuthUser actorId) alertId now kv) = Inl (NotFound ''Alert not found'')
      \<longleftrightarrow> kv_get kv alertId = None) \<and>
   (kv_get kv alertId = Some alert \<longrightarrow>
      fst (acknowledge (AuthUser actorId) alertId now kv)
        = Inr (alert \<lparr> acknowledged := Some True, acknowledgedBy := Some actorId,
                       acknowledgedAt := Some now \<rparr>) \<and>
      kv_get (snd (acknowledge (AuthUser actorId) alertId now kv)) alertId
        = Some (alert \<lparr> acknowledged := Some True, acknowledgedBy := Some actorId,
                        acknowledgedAt := Some now \<rparr>) \<and>
      fst (acknowledge (AuthUser actor2) alertId now2
             (snd (acknowledge (AuthUser actorId) alertId now kv)))
        = Inr (alert \<lparr> acknowledged := Some True, acknowledgedBy := Some actor2,
                       acknowledgedAt := Some now2 \<rparr>))"
proof (intro conjI impI)
  show "fst (acknowledge (AuthUser actorId) alertId now kv) = Inl (NotFound ''Alert not found'')
      \<longleftrightarrow> kv_get kv alertId = None"
    by (cases "kv_get kv alertId") (simp_all add: acknowledge_missing acknowledge_found)
next
  assume found: "kv_get kv alertId = Some alert"
  let ?once = "alert \<lparr> acknowledged := Some True, acknowledgedBy := Some actorId,
                       acknowledgedAt := Some now \<rparr>"
  show "fst (acknowledge (AuthUser actorId) alertId now kv) = Inr ?once"
    by (simp add: acknowledge_found [OF found])
  have stored: "kv_get (snd (acknowledge (AuthUser actorId) alertId now kv)) alertId = Some ?once"
    by (simp add: acknowledge_found [OF found] kv_get_kv_set)
  then show "kv_get (snd (acknowledge (AuthUser actorId) alertId now kv)) alertId = Some ?once" .
  show "fst (acknowledge (AuthUser actor2) alertId now2
             (snd (acknowledge (AuthUser actorId) alertId now kv)))
        = Inr (alert \<lparr> acknowledged := Some True, acknowledgedBy := Some actor2,
                       acknowledgedAt := Some now2 \<rparr>)"
    by (simp add: acknowledge_found [OF stored])
qed

theorem acknowledge_contract_witness:
  "kv_get exampleStore ''alert:p1:1000-Heart Rate'' \<noteq> None \<and>
   fst (acknowledge (AuthUser ''d1'') ''alert:p1:1000-Heart Rate'' 2000 exampleStore)
     \<noteq> Inl (NotFound ''Alert not found'') \<and>
   map_option acknowledgedBy
     (kv_get (snd (acknowledge (AuthUser ''d1'') ''alert:p1:1000-Heart Rate'' 2000 exampleStore))
        ''alert:p1:1000-Heart Rate'') = Some (Some ''d1'') \<and>
   fst (acknowledge (AuthUser ''d2'') ''alert:p1:1000-Heart Rate'' 3000
          (snd (acknowledge (AuthUser ''d1'') ''alert:p1:1000-Heart Rate'' 2000 exampleStore)))
     = Inr \<lparr> shape = Alert \<lparr> a_id = ''alert:p1:1000-Heart Rate'', a_patientId = ''p1'',
                         a_vitalId = ''vitals:p1:1000'', a_type = ''Heart Rate'',
                         a_severity = ''warning'', a_value = 45,
                         a_message = [Txt ''Heart rate '', Txt ''below'', Txt '' normal range''],
                         a_timestamp = 1000 \<rparr>,
             acknowledged = Some True, acknowledgedBy = Some ''d2'', acknowledgedAt = Some 3000 \<rparr>"
proof -
  let ?a = "\<lparr> shape = Alert \<lparr> a_id = ''alert:p1:1000-Heart Rate'', a_patientId = ''p1'',
                         a_vitalId = ''vitals:p1:1000'', a_type = ''Heart Rate'',
                         a_severity = ''warning'', a_value = 45,
                         a_message = [Txt ''Heart rate '', Txt ''below'', Txt '' normal range''],
                         a_timestamp = 1000 \<rparr>,
         acknowledged = Some False, acknowledgedBy = None, acknowledgedAt = None \<rparr>"
  have found: "kv_get exampleStore ''alert:p1:1000-Heart Rate'' = Some ?a"
    by (simp add: exampleStore_entries kv_get_def)
  from found
    acknowledge_contract [of "''d1''" "''alert:p1:1000-Heart Rate''" 2000 exampleStore ?a "''d2''" 3000]
  show ?thesis
    by simp
qed

text \<open>
  C8 as the specification states it fails for the key of a stored profile: the key does
  not resolve to a stored alert, and the handler does not answer NotFound but returns the
  profile, acknowledged.
\<close>

theorem acknowledge_profile_key_not_NotFound:
  "\<not> spec_resolvesToAlert exampleStore ''profile:u1'' \<and>
   fst (acknowledge (AuthUser ''d1'') ''profile:u1'' 2000 exampleStore)
     \<noteq> Inl (NotFound ''Alert not found'')"
  by (simp add: spec_resolvesToAlert_def exampleStore_entries kv_get_def exampleProfile_def
      plain_def acknowledge_def Let_def)

text \<open>
  C10. The guard of \<open>acknowledge\<close> tests only that something is stored under the key:
  for every stored object, whatever its shape, an authenticated call with its key does not
  fail, returns the object with \<open>acknowledged = true\<close>, \<open>acknowledgedBy\<close> and
  \<open>acknowledgedAt\<close> set and everything else as it was, and overwrites the stored object
  with it.
\<close>

theorem acknowledge_any_entity:
  "kv_get kv key = Some e \<longrightarrow>
     acknowledge (AuthUser actorId) key now kv =
       (Inr \<lparr> shape = shape e, acknowledged = Some True, acknowledgedBy = Some actorId,
               acknowledgedAt = Some now \<rparr>,
        kv_set kv key \<lparr> shape = shape e, acknowledged = Some True,
                         acknowledgedBy = Some actorId, acknowledgedAt = Some now \<rparr>) \<and>
     kv_get (snd (acknowledge (AuthUser actorId) key now kv)) key =
       Some \<lparr> shape = shape e, acknowledged = Some True, acknowledgedBy = Some actorId,
              acknowledgedAt = Some now \<rparr>"
proof
  assume found: "kv_get kv key = Some e"
  have eq: "e \<lparr> acknowledged := Some True, acknowledgedBy := Some actorId,
            acknowledgedAt := Some now \<rparr>
        = \<lparr> shape = shape e, acknowledged = Some True, acknowledgedBy = Some actorId,
            acknowledgedAt = Some now \<rparr>"
    by (cases e) simp
  show "acknowledge (AuthUser actorId) key now kv =
       (Inr \<lparr> shape = shape e, acknowledged = Some True, acknowledgedBy = Some actorId,
               acknowledgedAt = Some now \<rparr>,
        kv_set kv key \<lparr> shape = shape e, acknowledged = Some True,
                         acknowledgedBy = Some actorId, acknowledgedAt = Some now \<rparr>) \<and>
     kv_get (snd (acknowledge (AuthUser actorId) key now kv)) key =
       Some \<lparr> shape = shape e, acknowledged = Some True, acknowledgedBy = Some actorId,
              acknowledgedAt = Some now \<rparr>"
    unfolding acknowledge_found [OF found] eq
    by (simp add: kv_get_kv_set)
qed

theorem acknowledge_any_entity_witness:
  "kv_get exampleStore ''profile:u1'' = Some exampleProfile \<and>
   fst (acknowledge (AuthUser ''d1'') ''profile:u1'' 2000 exampleStore)
     = Inr \<lparr> shape = shape exampleProfile, acknowledged = Some True,
             acknowledgedBy = Some ''d1'', acknowledgedAt = Some 2000 \<rparr> \<and>
   kv_get (snd (acknowledge (AuthUser ''d1'') ''profile:u1'' 2000 exampleStore)) ''profile:u1''
     = Some \<lparr> shape = shape exampleProfile, acknowledged = Some True,
              acknowledgedBy = Some ''d1'', acknowledgedAt = Some 2000 \<rparr>"
proof -
  have found: "kv_get exampleStore ''profile:u1'' = Some exampleProfile"
    by (simp add: exampleStore_entries kv_get_def)
  with acknowledge_any_entity [of exampleStore "''profile:u1''" exampleProfile "''d1''" 2000]
  have "acknowledge (AuthUser ''d1'') ''profile:u1'' 2000 exampleStore =
       (Inr \<lparr> shape = shape exampleProfile, acknowledged = Some True,
               acknowledgedBy = Some ''d1'', acknowledgedAt = Some 2000 \<rparr>,
        kv_set exampleStore ''profile:u1''
          \<lparr> shape = shape exampleProfile, acknowledged = Some True,
            acknowledgedBy = Some ''d1'', acknowledgedAt = Some 2000 \<rparr>) \<and>
     kv_get (snd (acknowledge (AuthUser ''d1'') ''profile:u1'' 2000 exampleStore)) ''profile:u1'' =
       Some \<lparr> shape = shape exampleProfile, acknowledged = Some True,
              acknowledgedBy = Some ''d1'', acknowledgedAt = Some 2000 \<rparr>"
    by blast
  with found show ?thesis
    by (metis fst_conv)
qed

section \<open>An unrecognised period\<close>

lemma cutoffDate_unrecognised:
  "period \<notin> {''7days'', ''30days'', ''3months'', ''1year''} \<Longrightarrow>
   cutoffDate cal now fresh period = fresh"
  by (simp add: cutoffDate_def)

lemma periodOf_given: "period \<noteq> [] \<Longrightarrow> periodOf (Some period) = period"
  by (simp add: periodOf_def)

text \<open>
  C3, as amended. For a period that is given and is none of \<open>7days\<close>, \<open>30days\<close>,
  \<open>3months\<close>, \<open>1year\<close>, both analytics handlers answer without an error, and the cutoff
  is the instant of the request: the readings and alerts returned are those of the scope
  whose timestamp is not before that instant, in ascending order of time for the patient
  handler and in stored order for the aggregate handler.
\<close>

theorem unrecognised_period_cutoff_is_request_time:
  "period \<noteq> [] \<and> period \<notin> {''7days'', ''30days'', ''3months'', ''1year''} \<longrightarrow>
     (case analyticsPatient (AuthUser userId) cal now fresh patientId (Some period) kv of
        Inl err \<Rightarrow> False
      | Inr r \<Rightarrow>
          pa_vitals r = sort_key sortKey (filter (sinceCutoff fresh)
                          (kv_getByPrefix kv (''vitals:'' @ patientId @ '':''))) \<and>
          pa_alerts r = sort_key sortKey (filter (sinceCutoff fresh)
                          (kv_getByPrefix kv (''alert:'' @ patientId @ '':'')))) \<and>
     (case analyticsAggregate (AuthUser userId) cal now fresh (Some period) kv of
        Inl err \<Rightarrow> False
      | Inr r \<Rightarrow>
          aa_vitals r = filter (sinceCutoff fresh) (kv_getByPrefix kv ''vitals:'') \<and>
          aa_alerts r = filter (sinceCutoff fresh) (kv_getByPrefix kv ''alert:''))"
proof
  assume "period \<noteq> [] \<and> period \<notin> {''7days'', ''30days'', ''3months'', ''1year''}"
  then have "cutoffDate cal now fresh (periodOf (Some period)) = fresh"
    by (simp add: periodOf_given cutoffDate_unrecognised)
  then show "(case analyticsPatient (AuthUser userId) cal now fresh patientId (Some period) kv of
        Inl err \<Rightarrow> False
      | Inr r \<Rightarrow>
          pa_vitals r = sort_key sortKey (filter (sinceCutoff fresh)
                          (kv_getByPrefix kv (''vitals:'' @ patientId @ '':''))) \<and>
          pa_alerts r = sort_key sortKey (filter (sinceCutoff fresh)
                          (kv_getByPrefix kv (''alert:'' @ patientId @ '':'')))) \<and>
     (case analyticsAggregate (AuthUser userId) cal now fresh (Some period) kv of
        Inl err \<Rightarrow> False
      | Inr r \<Rightarrow>
          aa_vitals r = filter (sinceCutoff fresh) (kv_getByPrefix kv ''vitals:'') \<and>
          aa_alerts r = filter (sinceCutoff fresh) (kv_getByPrefix kv ''alert:''))"
    by (simp add: analyticsPatient_def analyticsAggregate_def Let_def)
qed

lemma exampleStore_vitals_p1:
  "kv_getByPrefix exampleStore ''vitals:p1:'' = [reading_of (Some 45) None None None]"
  by (simp add: exampleStore_entries kv_getByPrefix_def)

lemma exampleStore_vitals_all:
  "kv_getByPrefix exampleStore ''vitals:'' = [reading_of (Some 45) None None None]"
  by (simp add: exampleStore_entries kv_getByPrefix_def)

lemma exampleStore_alerts_p1:
  "map timestampOf (kv_getByPrefix exampleStore ''alert:p1:'') = [Some 1000]"
  by (simp add: exampleStore_entries kv_getByPrefix_def timestampOf_def)

lemma exampleStore_alerts_all:
  "map timestampOf (kv_getByPrefix exampleStore ''alert:'') = [Some 1000]"
  by (simp add: exampleStore_entries kv_getByPrefix_def timestampOf_def)

lemma filter_sinceCutoff_none:
  "list_all (\<lambda>t. case t of None \<Rightarrow> True | Some t \<Rightarrow> t < cutoff) (map timestampOf es) \<Longrightarrow>
   filter (sinceCutoff cutoff) es = []"
  by (induction es) (auto simp: sinceCutoff_def split: option.splits)

theorem unrecognised_period_cutoff_is_request_time_witness:
  "''all'' \<noteq> [] \<and> ''all'' \<notin> {''7days'', ''30days'', ''3months'', ''1year''} \<and>
   (case analyticsPatient (AuthUser ''d1'') exampleCalendar 900 900 ''p1'' (Some ''all'')
           exampleStore of
      Inl err \<Rightarrow> False
    | Inr r \<Rightarrow> pa_vitals r = [reading_of (Some 45) None None None])"
proof -
  have h: "''all'' \<noteq> [] \<and> ''all'' \<notin> {''7days'', ''30days'', ''3months'', ''1year''}"
    by simp
  have "filter (sinceCutoff 900) [reading_of (Some 45) None None None]
          = [reading_of (Some 45) None None None]"
    by (simp add: sinceCutoff_def timestampOf_def reading_of_def plain_def)
  with h
    unrecognised_period_cutoff_is_request_time
      [where period = "''all''" and userId = "''d1''" and cal = exampleCalendar and now = 900
         and fresh = 900 and patientId = "''p1''" and kv = exampleStore]
  show ?thesis
    by (auto simp: exampleStore_vitals_p1 split: sum.splits)
qed

text \<open>
  C3 as the specification states it fails for the example store, which holds one reading
  and one alert of patient \<open>p1\<close>, both of instant 1000: a request at instant 2000 with
  the period \<open>all\<close> gets no reading and no alert from either handler.
\<close>

theorem unrecognised_period_excludes_stored:
  "kv_getByPrefix exampleStore ''vitals:p1:'' = [reading_of (Some 45) None None None] \<and>
   map timestampOf (kv_getByPrefix exampleStore ''alert:p1:'') = [Some 1000] \<and>
   analyticsPatient (AuthUser ''d1'') exampleCalendar 2000 2000 ''p1'' (Some ''all'') exampleStore
     = Inr \<lparr> pa_vitals = [], pa_alerts = [],
             pa_stats = \<lparr> ps_totalReadings = 0, ps_normalReadings = 0, ps_totalAlerts = 0,
                          ps_criticalAlerts = 0, ps_warningAlerts = 0 \<rparr> \<rparr> \<and>
   analyticsAggregate (AuthUser ''d1'') exampleCalendar 2000 2000 (Some ''all'') exampleStore
     = Inr \<lparr> aa_vitals = [], aa_alerts = [],
             aa_stats = \<lparr> as_totalPatients = 1, as_totalReadings = 0, as_totalAlerts = 0,
                          as_criticalAlerts = 0, as_warningAlerts = 0, as_avgHeartRate = Some 0,
                          as_avgOxygenLevel = Some 0 \<rparr>,
             aa_patients = [exampleProfile] \<rparr>"
proof -
  have c: "cutoffDate exampleCalendar 2000 2000 (periodOf (Some ''all'')) = 2000"
    by (simp add: periodOf_def cutoffDate_def)
  have v1: "filter (sinceCutoff 2000) (kv_getByPrefix exampleStore ''vitals:p1:'') = []"
    by (rule filter_sinceCutoff_none) (simp add: exampleStore_vitals_p1 timestampOf_def reading_of_def plain_def)
  have v2: "filter (sinceCutoff 2000) (kv_getByPrefix exampleStore ''vitals:'') = []"
    by (rule filter_sinceCutoff_none) (simp add: exampleStore_vitals_all timestampOf_def reading_of_def plain_def)
  have a1: "filter (sinceCutoff 2000) (kv_getByPrefix exampleStore ''alert:p1:'') = []"
    by (rule filter_sinceCutoff_none) (simp add: exampleStore_alerts_p1)
  have a2: "filter (sinceCutoff 2000) (kv_getByPrefix exampleStore ''alert:'') = []"
    by (rule filter_sinceCutoff_none) (simp add: exampleStore_alerts_all)
  have p: "filter (\<lambda>p. roleOf p = Some ''patient'') (kv_getByPrefix exampleStore ''profile:'')
             = [exampleProfile]"
    by (simp add: exampleStore_entries kv_getByPrefix_def exampleProfile_def plain_def
        roleOf_def)
  have one: "analyticsPatient (AuthUser ''d1'') exampleCalendar 2000 2000 ''p1'' (Some ''all'')
               exampleStore
     = Inr \<lparr> pa_vitals = [], pa_alerts = [],
             pa_stats = \<lparr> ps_totalReadings = 0, ps_normalReadings = 0, ps_totalAlerts = 0,
                          ps_criticalAlerts = 0, ps_warningAlerts = 0 \<rparr> \<rparr>"
    unfolding analyticsPatient_def Let_def c
    by (simp add: patientStats_def v1 a1)
  have all: "analyticsAggregate (AuthUser ''d1'') exampleCalendar 2000 2000 (Some ''all'')
               exampleStore
     = Inr \<lparr> aa_vitals = [], aa_alerts = [],
             aa_stats = \<lparr> as_totalPatients = 1, as_totalReadings = 0, as_totalAlerts = 0,
                          as_criticalAlerts = 0, as_warningAlerts = 0, as_avgHeartRate = Some 0,
                          as_avgOxygenLevel = Some 0 \<rparr>,
             aa_patients = [exampleProfile] \<rparr>"
    unfolding analyticsAggregate_def Let_def c v2 a2 p
    by (simp add: aggregateStats_def average_def)
  from one all show ?thesis
    by (simp add: exampleStore_vitals_p1 exampleStore_alerts_p1)
qed

section \<open>Normal readings\<close>

lemma readingNormal_threeVitals: "readingNormal v = spec_threeVitalsNormal v"
  by (cases "heartRateOf v"; cases "oxygenLevelOf v"; cases "temperatureOf v")
     (simp_all add: readingNormal_def hrNormal_def o2Normal_def tempNormal_def
      spec_threeVitalsNormal_def spec_heartRateNormal_def spec_oxygenLevelNormal_def
      spec_temperatureNormal_def)

lemma readingNormal_spec:
  assumes "zeroFree v"
    and "case bloodPressureOf v of None \<Rightarrow> True | Some bp \<Rightarrow> spec_bloodPressureNormal bp"
  shows "readingNormal v = spec_readingNormal v"
  using assms
  by (auto simp: readingNormal_threeVitals spec_threeVitalsNormal_def spec_readingNormal_def
      zeroFree_def spec_heartRateNormal_def spec_oxygenLevelNormal_def
      spec_temperatureNormal_def split: option.splits)

text \<open>
  C4, as amended. The stat \<open>normalReadings\<close> of the patient handler is the number of
  returned readings in which each of heart rate, oxygen level and temperature is absent,
  zero or within its normal band. The blood pressure is not examined: a reading counts the
  same whatever its blood pressure, a reading with no heart rate, oxygen level or
  temperature counts as normal, and for a reading without a zero whose blood pressure is
  absent or normal the count agrees with the wording of the specification.
\<close>

theorem normalReadings_counts_three_vitals:
  "(case analyticsPatient authResult cal now fresh patientId periodQuery kv of
      Inl err \<Rightarrow> True
    | Inr r \<Rightarrow> ps_normalReadings (pa_stats r)
                 = length (filter spec_threeVitalsNormal (pa_vitals r))) \<and>
   ps_normalReadings (patientStats vitals alerts) = length (filter spec_threeVitalsNormal vitals) \<and>
   readingNormal (reading_of hr bp o2 temp) = readingNormal (reading_of hr None o2 temp) \<and>
   readingNormal (reading_of None bp None None) \<and>
   (zeroFree v \<and> (case bloodPressureOf v of None \<Rightarrow> True
                   | Some bp \<Rightarrow> spec_bloodPressureNormal bp)
      \<longrightarrow> readingNormal v = spec_readingNormal v)"
proof (intro conjI impI)
  have eq: "readingNormal = spec_threeVitalsNormal"
    by (rule ext) (rule readingNormal_threeVitals)
  show "case analyticsPatient authResult cal now fresh patientId periodQuery kv of
      Inl err \<Rightarrow> True
    | Inr r \<Rightarrow> ps_normalReadings (pa_stats r)
                 = length (filter spec_threeVitalsNormal (pa_vitals r))"
    by (cases authResult) (simp_all add: analyticsPatient_def Let_def patientStats_def eq)
  show "ps_normalReadings (patientStats vitals alerts)
          = length (filter spec_threeVitalsNormal vitals)"
    by (simp add: patientStats_def eq)
  show "readingNormal (reading_of hr bp o2 temp) = readingNormal (reading_of hr None o2 temp)"
    by (simp add: readingNormal_def hrNormal_def o2Normal_def tempNormal_def heartRateOf_def
        oxygenLevelOf_def temperatureOf_def reading_of_def plain_def)
  show "readingNormal (reading_of None bp None None)"
    by (simp add: readingNormal_def hrNormal_def o2Normal_def tempNormal_def heartRateOf_def
        oxygenLevelOf_def temperatureOf_def reading_of_def plain_def)
  show "readingNormal v = spec_readingNormal v"
    if "zeroFree v \<and> (case bloodPressureOf v of None \<Rightarrow> True
                       | Some bp \<Rightarrow> spec_bloodPressureNormal bp)"
    using that readingNormal_spec by blast
qed

theorem normalReadings_counts_three_vitals_witness:
  "zeroFree (reading_of (Some 72) (Some ''110/70'') (Some 98) (Some 36.6)) \<and>
   spec_bloodPressureNormal ''110/70'' \<and>
   readingNormal (reading_of (Some 72) (Some ''110/70'') (Some 98) (Some 36.6))
     = spec_readingNormal (reading_of (Some 72) (Some ''110/70'') (Some 98) (Some 36.6))"
proof -
  have z: "zeroFree (reading_of (Some 72) (Some ''110/70'') (Some 98) (Some 36.6))"
    by (simp add: zeroFree_def heartRateOf_def oxygenLevelOf_def temperatureOf_def
        reading_of_def plain_def)
  have n: "spec_bloodPressureNormal ''110/70''"
    by (simp add: spec_bloodPressureNormal_def decimalOf_def digitOf_def)
  have b: "bloodPressureOf (reading_of (Some 72) (Some ''110/70'') (Some 98) (Some 36.6))
             = Some ''110/70''"
    by (simp add: bloodPressureOf_def reading_of_def plain_def)
  from z n b
    normalReadings_counts_three_vitals
      [where v = "reading_of (Some 72) (Some ''110/70'') (Some 98) (Some 36.6)"]
  show ?thesis
    by simp
qed

text \<open>
  C4 as the specification states it fails for a reading whose only vital is the blood
  pressure \<open>150/95\<close>: it is outside its band, and the handler counts the reading as
  normal.
\<close>

theorem normalReadings_ignores_bloodPressure:
  "ps_normalReadings (patientStats [reading_of None (Some ''150/95'') None None] []) = 1 \<and>
   spec_normalReadings [reading_of None (Some ''150/95'') None None] = 0"
  by (simp add: patientStats_def readingNormal_def hrNormal_def o2Normal_def tempNormal_def
      spec_normalReadings_def spec_readingNormal_def heartRateOf_def oxygenLevelOf_def
      temperatureOf_def bloodPressureOf_def reading_of_def plain_def
      spec_bloodPressureNormal_def decimalOf_def digitOf_def)

section \<open>Double-precision arithmetic is exact on small whole numbers\<close>

lemma bitlen_powi_bounds:
  fixes x :: int
  assumes "0 < x"
  shows "(2::rat) powi (bitlen x - 1) \<le> of_int x" and "of_int x < (2::rat) powi (bitlen x)"
proof -
  have b: "1 \<le> bitlen x"
    using assms bitlen_eq_zero_iff [of x] bitlen_nonneg [of x] by linarith
  from bitlen_bounds [OF assms] have lo: "2 ^ nat (bitlen x - 1) \<le> x" and hi: "x < 2 ^ nat (bitlen x)"
    by auto
  have "(2::rat) powi (bitlen x - 1) = of_int (2 ^ nat (bitlen x - 1))"
    using b by (simp add: power_int_def)
  also have "\<dots> \<le> of_int x"
    using lo by (simp only: of_int_le_iff)
  finally show "(2::rat) powi (bitlen x - 1) \<le> of_int x" .
  have "(of_int x :: rat) < of_int (2 ^ nat (bitlen x))"
    using hi by (simp only: of_int_less_iff)
  also have "\<dots> = (2::rat) powi (bitlen x)"
    using b by (simp add: power_int_def)
  finally show "of_int x < (2::rat) powi (bitlen x)" .
qed

lemma exponentOf_bounds:
  assumes "0 < a"
  shows "2 powi (exponentOf a) \<le> a" and "a < 2 powi (exponentOf a + 1)"
proof -
  obtain p q where pq: "quotient_of a = (p, q)"
    by (cases "quotient_of a")
  then have q: "0 < q" and a: "a = of_int p / of_int q"
    by (simp_all add: quotient_of_denom_pos quotient_of_div)
  from assms a q have p: "0 < p"
    by (simp add: zero_less_divide_iff)
  let ?d = "bitlen p - bitlen q"
  have qpos: "(0::rat) < of_int q" using q by simp
  have lo: "(2::rat) powi (?d - 1) < a"
  proof -
    have "(2::rat) powi (?d - 1) = 2 powi (bitlen p - 1) / 2 powi (bitlen q)"
      by (simp add: power_int_diff)
    also have "\<dots> \<le> of_int p / 2 powi (bitlen q)"
      using bitlen_powi_bounds(1) [OF p] by (simp add: divide_right_mono)
    also have "\<dots> < of_int p / of_int q"
      using bitlen_powi_bounds(2) [OF q] p qpos by (simp add: divide_strict_left_mono)
    finally show ?thesis using a by simp
  qed
  have hi: "a < (2::rat) powi (?d + 1)"
  proof -
    have "a = of_int p / of_int q" by (rule a)
    also have "\<dots> < 2 powi (bitlen p) / of_int q"
      using bitlen_powi_bounds(2) [OF p] qpos by (simp add: divide_strict_right_mono)
    also have "\<dots> \<le> 2 powi (bitlen p) / 2 powi (bitlen q - 1)"
      using bitlen_powi_bounds(1) [OF q] by (intro frac_le) simp_all
    also have "\<dots> = (2::rat) powi (?d + 1)"
      by (simp add: power_int_diff power_int_add)
    finally show ?thesis .
  qed
  have e: "exponentOf a = (if 2 powi ?d \<le> a then ?d else ?d - 1)"
    by (simp add: exponentOf_def pq Let_def)
  show "2 powi (exponentOf a) \<le> a"
    using lo by (simp add: e)
  show "a < 2 powi (exponentOf a + 1)"
    using hi by (auto simp: e not_le)
qed


lemma roundEven_error: "\<bar>of_int (roundEven y) - y\<bar> \<le> 1 / 2"
proof -
  have "of_int \<lfloor>y\<rfloor> \<le> y" "y < of_int \<lfloor>y\<rfloor> + 1"
    by linarith+
  then show ?thesis
    unfolding roundEven_def by (auto simp: abs_le_iff)
qed

lemma roundEven_of_int: "roundEven (of_int z) = z"
  by (simp add: roundEven_def)

lemma powi_pos: "(0::rat) < 2 powi k"
  by (simp add: power_int_def)

lemma powi_less_imp_less: "(2::rat) powi a < 2 powi b \<Longrightarrow> a < b"
  by (rule ccontr) (simp add: not_less power_int_increasing leD)

lemma toDouble_unfold:
  assumes "x \<noteq> 0" and "2 powi (- 1022) \<le> \<bar>x\<bar>"
    and "of_int (roundEven (\<bar>x\<bar> / 2 powi (exponentOf \<bar>x\<bar> - 52))) * 2 powi (exponentOf \<bar>x\<bar> - 52)
           < (2::rat) ^ 1024"
  shows "toDouble x =
           Some (sgn x * (of_int (roundEven (\<bar>x\<bar> / 2 powi (exponentOf \<bar>x\<bar> - 52)))
                            * 2 powi (exponentOf \<bar>x\<bar> - 52)))"
proof -
  have a: "0 < \<bar>x\<bar>" using assms(1) by simp
  from assms(2) exponentOf_bounds(2) [OF a] have "(2::rat) powi (- 1022) < 2 powi (exponentOf \<bar>x\<bar> + 1)"
    by simp
  then have "- 1022 < exponentOf \<bar>x\<bar> + 1"
    by (rule powi_less_imp_less)
  then have "max (exponentOf \<bar>x\<bar>) (- 1022) = exponentOf \<bar>x\<bar>"
    by simp
  with assms(1,3) show ?thesis
    by (simp add: toDouble_def Let_def not_le)
qed

lemma toDouble_error:
  assumes "x \<noteq> 0" and "2 powi (- 1022) \<le> \<bar>x\<bar>" and "\<bar>x\<bar> < 2 ^ 1023"
  shows "\<exists>y. toDouble x = Some y \<and> \<bar>y - x\<bar> \<le> \<bar>x\<bar> / 2 ^ 53"
proof -
  let ?a = "\<bar>x\<bar>"
  let ?e = "exponentOf ?a"
  let ?ulp = "(2::rat) powi (?e - 52)"
  let ?r = "of_int (roundEven (?a / ?ulp)) * ?ulp"
  have a: "0 < ?a" using assms(1) by simp
  have ulp: "?ulp = 2 powi ?e / 2 ^ 52"
    by (simp add: power_int_diff)
  have ulp_le: "?ulp \<le> ?a / 2 ^ 52"
    unfolding ulp using exponentOf_bounds(1) [OF a] by (simp add: divide_right_mono)
  have ulp_pos: "0 < ?ulp" by (rule powi_pos)
  have "\<bar>?r - ?a\<bar> = \<bar>of_int (roundEven (?a / ?ulp)) - ?a / ?ulp\<bar> * ?ulp"
  proof -
    have "?r - ?a = (of_int (roundEven (?a / ?ulp)) - ?a / ?ulp) * ?ulp"
      using ulp_pos by (simp add: field_simps)
    then show ?thesis
      using ulp_pos by (simp add: abs_mult)
  qed
  also have "\<dots> \<le> 1 / 2 * ?ulp"
    using roundEven_error [of "?a / ?ulp"] ulp_pos by (intro mult_right_mono) simp_all
  also have "\<dots> \<le> ?a / 2 ^ 53"
    using ulp_le by simp
  finally have err: "\<bar>?r - ?a\<bar> \<le> ?a / 2 ^ 53" .
  then have "?r - ?a \<le> ?a / 2 ^ 53"
    by linarith
  then have "?r \<le> ?a + ?a / 2 ^ 53"
    by linarith
  also have "\<dots> \<le> 2 * ?a"
    using a by simp
  also have "\<dots> < 2 ^ 1024"
    using assms(3) by simp
  finally have "?r < 2 ^ 1024" .
  from toDouble_unfold [OF assms(1,2) this] have td: "toDouble x = Some (sgn x * ?r)" .
  have "x = sgn x * ?a"
    by (simp add: sgn_mult_abs)
  then have "sgn x * ?r - x = sgn x * (?r - ?a)"
    by (simp add: right_diff_distrib)
  then have "\<bar>sgn x * ?r - x\<bar> = \<bar>sgn x * (?r - ?a)\<bar>"
    by simp
  also have "\<dots> = \<bar>?r - ?a\<bar>"
    using assms(1) by (simp add: abs_mult)
  finally show ?thesis
    using td err by simp
qed

lemma toDouble_half_integer:
  assumes "\<bar>of_int m / 2 :: rat\<bar> < 2 ^ 52"
  shows "toDouble (of_int m / 2) = Some (of_int m / 2)"
proof (cases "m = 0")
  case True
  then show ?thesis by (simp add: toDouble_def)
next
  case False
  let ?x = "of_int m / 2 :: rat"
  let ?a = "\<bar>?x\<bar>"
  let ?e = "exponentOf ?a"
  let ?ulp = "(2::rat) powi (?e - 52)"
  have x: "?x \<noteq> 0" using False by simp
  have a: "0 < ?a" using x by simp
  have a_eq: "?a = of_int \<bar>m\<bar> / 2" by simp
  have "1 \<le> \<bar>m\<bar>" using False by simp
  then have "(1::rat) \<le> of_int \<bar>m\<bar>" by (simp only: of_int_1_le_iff)
  then have half: "1 / 2 \<le> ?a" unfolding a_eq by simp
  have "(2::rat) powi (- 1022) \<le> 2 powi (- 1)"
    by (rule power_int_increasing) simp_all
  then have small: "(2::rat) powi (- 1022) \<le> 1 / 2"
    by simp
  have lo: "2 powi (- 1022) \<le> ?a" using small half by simp
  have "(2::rat) powi ?e < 2 powi 52"
    using exponentOf_bounds(1) [OF a] assms by simp
  then have e: "?e < 52" by (rule powi_less_imp_less)
  have "?a / ?ulp = ?a * 2 powi (52 - ?e)"
    by (simp add: power_int_diff field_simps)
  also have "\<dots> = of_int \<bar>m\<bar> * 2 powi (51 - ?e)"
    unfolding a_eq by (simp add: power_int_diff)
  also have "\<dots> = of_int (\<bar>m\<bar> * 2 ^ nat (51 - ?e))"
    using e by (simp add: power_int_def)
  finally have int: "?a / ?ulp = of_int (\<bar>m\<bar> * 2 ^ nat (51 - ?e))" .
  have r: "of_int (roundEven (?a / ?ulp)) * ?ulp = ?a"
    unfolding int roundEven_of_int unfolding int [symmetric]
    using powi_pos [of "?e - 52"] by simp
  have "?a < 2 ^ 1024"
  proof -
    have "(2::rat) ^ 52 \<le> 2 ^ 1024" by (rule power_increasing) simp_all
    with assms show ?thesis by simp
  qed
  then have "of_int (roundEven (?a / ?ulp)) * ?ulp < 2 ^ 1024"
    unfolding r .
  from toDouble_unfold [OF x lo this] show ?thesis
    unfolding r by (simp add: mult_sgn_abs)
qed

lemma toDouble_integer:
  assumes "\<bar>z\<bar> < 2 ^ 52"
  shows "toDouble (of_int z) = Some (of_int z)"
proof -
  have "(of_int \<bar>z\<bar> :: rat) < of_int (2 ^ 52)"
    using assms by (simp only: of_int_less_iff)
  then have "\<bar>of_int (2 * z) / 2 :: rat\<bar> < 2 ^ 52"
    by simp
  from toDouble_half_integer [OF this] show ?thesis by simp
qed


lemma toDouble_mean_round:
  fixes s :: int and n :: nat
  assumes s: "\<bar>s\<bar> < 2 ^ 52" and n0: "0 < n" and n: "n < 2 ^ 52"
  shows "\<exists>y. toDouble (of_int s / of_nat n) = Some y \<and>
             \<lfloor>y + 1 / 2\<rfloor> = \<lfloor>(of_int s / of_nat n :: rat) + 1 / 2\<rfloor>"
proof (cases "s = 0")
  case True
  then show ?thesis by (simp add: toDouble_def)
next
  case False
  let ?N = "of_nat n :: rat"
  let ?x = "of_int s / ?N :: rat"
  define k where "k = \<lfloor>?x + 1 / 2\<rfloor>"
  have N: "0 < ?N" using n0 by simp
  have N1: "1 \<le> ?N" using n0 by simp
  have Nlt: "?N < 2 ^ 52"
  proof -
    have "(of_nat n :: rat) < of_nat (2 ^ 52)" using n by (simp only: of_nat_less_iff)
    then show ?thesis by simp
  qed
  have S1: "(1::rat) \<le> of_int \<bar>s\<bar>"
    using False by (simp only: of_int_1_le_iff)
  have Slt: "(of_int \<bar>s\<bar> :: rat) < 2 ^ 52"
  proof -
    have "(of_int \<bar>s\<bar> :: rat) < of_int (2 ^ 52)" using s by (simp only: of_int_less_iff)
    then show ?thesis by simp
  qed
  have x0: "?x \<noteq> 0" using False n0 by simp
  have ax: "\<bar>?x\<bar> = of_int \<bar>s\<bar> / ?N" by simp
  have "(of_int \<bar>s\<bar> :: rat) / ?N \<le> of_int \<bar>s\<bar> / 1"
    by (rule divide_left_mono) (use N1 S1 in simp_all)
  then have x_le: "\<bar>?x\<bar> \<le> of_int \<bar>s\<bar>"
    unfolding ax by simp
  have x_lt: "\<bar>?x\<bar> < 2 ^ 52" using x_le Slt by linarith
  have x_ge: "1 / ?N \<le> \<bar>?x\<bar>"
    unfolding ax using N S1 by (simp add: divide_right_mono)
  have "(2::rat) powi (- 1022) \<le> 2 powi (- 52)"
    by (rule power_int_increasing) simp_all
  also have "\<dots> = 1 / 2 ^ 52" by (simp add: power_int_def field_simps)
  also have "\<dots> \<le> 1 / ?N" using N Nlt by (simp add: frac_le)
  finally have lo: "2 powi (- 1022) \<le> \<bar>?x\<bar>" using x_ge by linarith
  have "(2::rat) ^ 52 \<le> 2 ^ 1023" by (rule power_increasing) simp_all
  then have hi: "\<bar>?x\<bar> < 2 ^ 1023" using x_lt by linarith
  from toDouble_error [OF x0 lo hi] obtain y
    where y: "toDouble ?x = Some y" and err: "\<bar>y - ?x\<bar> \<le> \<bar>?x\<bar> / 2 ^ 53"
    by blast
  have "\<bar>?x\<bar> / 2 ^ 53 < 1 / (2 * ?N)"
  proof -
    have "\<bar>?x\<bar> / 2 ^ 53 = of_int \<bar>s\<bar> / (2 ^ 53 * ?N)" unfolding ax by simp
    also have "\<dots> < 2 ^ 52 / (2 ^ 53 * ?N)"
    proof -
      have "0 < 2 ^ 53 * ?N" using N by simp
      with Slt show ?thesis by (rule divide_strict_right_mono)
    qed
    also have "\<dots> = 1 / (2 * ?N)" using N by (simp add: field_simps)
    finally show ?thesis .
  qed
  with err have close: "\<bar>y - ?x\<bar> < 1 / (2 * ?N)" by linarith
  have k: "of_int k \<le> ?x + 1 / 2" "?x + 1 / 2 < of_int k + 1"
    unfolding k_def by linarith+
  show ?thesis
  proof (cases "?x + 1 / 2 = of_int k")
    case True
    then have xk: "?x = of_int (2 * k - 1) / 2"
      by (simp add: field_simps)
    have "\<bar>of_int (2 * k - 1) / 2 :: rat\<bar> < 2 ^ 52"
      using x_lt unfolding xk [symmetric] .
    from toDouble_half_integer [OF this] have "toDouble ?x = Some ?x"
      unfolding xk [symmetric] .
    then show ?thesis by simp
  next
    case False
    let ?T = "2 * s + int n"
    let ?K = "2 * int n * k"
    have Tx: "?x + 1 / 2 = of_int ?T / (2 * ?N)"
      using N by (simp add: field_simps)
    have Kk: "(of_int k :: rat) = of_int ?K / (2 * ?N)"
      using N by simp
    have pos2N: "0 < 2 * ?N" using N by simp
    from k(1) False have "(of_int k :: rat) < ?x + 1 / 2" by linarith
    then have "(of_int ?K :: rat) / (2 * ?N) < of_int ?T / (2 * ?N)"
      unfolding Tx Kk [symmetric] .
    then have "(of_int ?K :: rat) < of_int ?T"
      using pos2N unfolding divide_less_cancel by blast
    then have "?K < ?T" by (simp only: of_int_less_iff)
    then have "?K + 1 \<le> ?T" by simp
    then have "(of_int (?K + 1) :: rat) \<le> of_int ?T" by (simp only: of_int_le_iff)
    then have "(of_int (?K + 1) :: rat) / (2 * ?N) \<le> of_int ?T / (2 * ?N)"
      using pos2N by (intro divide_right_mono) simp_all
    moreover have "(of_int (?K + 1) :: rat) / (2 * ?N) = of_int ?K / (2 * ?N) + 1 / (2 * ?N)"
      by (simp only: of_int_add of_int_1 add_divide_distrib)
    ultimately have low: "of_int k + 1 / (2 * ?N) \<le> ?x + 1 / 2"
      unfolding Tx Kk [symmetric] by simp
    have K2: "(of_int (?K + 2 * int n) :: rat) / (2 * ?N) = of_int k + 1"
    proof -
      have "(of_int (?K + 2 * int n) :: rat) / (2 * ?N)
              = of_int ?K / (2 * ?N) + (2 * ?N) / (2 * ?N)"
        by (simp only: of_int_add of_int_mult of_int_of_nat_eq of_int_numeral add_divide_distrib)
      also have "\<dots> = of_int k + 1"
        unfolding Kk [symmetric] using pos2N by simp
      finally show ?thesis .
    qed
    have "(of_int ?T :: rat) / (2 * ?N) < of_int (?K + 2 * int n) / (2 * ?N)"
      using k(2) unfolding Tx K2 .
    then have "(of_int ?T :: rat) < of_int (?K + 2 * int n)"
      using pos2N unfolding divide_less_cancel by blast
    then have "?T < ?K + 2 * int n" by (simp only: of_int_less_iff)
    then have "?T + 1 \<le> ?K + 2 * int n" by simp
    then have "(of_int (?T + 1) :: rat) \<le> of_int (?K + 2 * int n)" by (simp only: of_int_le_iff)
    then have "(of_int (?T + 1) :: rat) / (2 * ?N) \<le> of_int (?K + 2 * int n) / (2 * ?N)"
      using pos2N by (intro divide_right_mono) simp_all
    moreover have "(of_int (?T + 1) :: rat) / (2 * ?N) = of_int ?T / (2 * ?N) + 1 / (2 * ?N)"
      by (simp only: of_int_add of_int_1 add_divide_distrib)
    ultimately have high: "?x + 1 / 2 + 1 / (2 * ?N) \<le> of_int k + 1"
      unfolding Tx K2 by simp
    from close have "y - ?x < 1 / (2 * ?N)" "?x - y < 1 / (2 * ?N)"
      by linarith+
    with low high have "of_int k \<le> y + 1 / 2" "y + 1 / 2 < of_int k + 1"
      by linarith+
    then have "\<lfloor>y + 1 / 2\<rfloor> = k"
      by (rule floor_unique)
    with y show ?thesis by (simp add: k_def)
  qed
qed

lemma addDouble_integers:
  fixes zs :: "int list"
  assumes "\<bar>a\<bar> + sum_list (map abs zs) < 2 ^ 52"
  shows "foldl addDouble (Some (of_int a)) (map of_int zs) = Some (of_int (a + sum_list zs))"
  using assms
proof (induction zs arbitrary: a)
  case Nil
  then show ?case by simp
next
  case (Cons z zs)
  have nn: "0 \<le> sum_list (map abs zs)"
    by (rule sum_list_nonneg) auto
  from Cons.prems nn have z: "\<bar>z\<bar> < 2 ^ 52" and az: "\<bar>a + z\<bar> < 2 ^ 52"
    by simp_all
  have step: "addDouble (Some (of_int a)) (of_int z) = Some (of_int (a + z))"
    using toDouble_integer [OF z] toDouble_integer [OF az] by (simp add: addDouble_def)
  have "\<bar>a + z\<bar> + sum_list (map abs zs) < 2 ^ 52"
    using Cons.prems by simp
  from Cons.IH [OF this] show ?case
    by (simp add: step add.assoc)
qed


section \<open>Averages\<close>

lemma mathRound_round: "mathRound = round"
  by (rule ext) (simp add: mathRound_def round_def)

lemma average_present:
  assumes "\<And>v. v \<in> set vitals \<Longrightarrow> field v \<noteq> Some 0"
  shows "average field vitals = spec_doubleAverage field vitals"
proof -
  have t: "truthy (field v) = (field v \<noteq> None)" if "v \<in> set vitals" for v
    using assms [OF that] by (cases "field v") auto
  then have f: "filter (\<lambda>v. truthy (field v)) vitals = filter (\<lambda>v. field v \<noteq> None) vitals"
    by (simp cong: filter_cong)
  have n: "map (\<lambda>v. numberOf (field v)) (filter (\<lambda>v. field v \<noteq> None) vitals)
             = map (\<lambda>v. the (field v)) (filter (\<lambda>v. field v \<noteq> None) vitals)"
    by (rule map_cong) (auto simp: numberOf_def)
  have fold: "foldl (\<lambda>sum v. addDouble sum (numberOf (field v))) (Some 0) hs
                = foldl addDouble (Some 0) (map (\<lambda>v. numberOf (field v)) hs)" for hs
    by (simp add: foldl_map)
  show ?thesis
  proof (cases "filter (\<lambda>v. field v \<noteq> None) vitals")
    case Nil
    then show ?thesis
      by (simp add: average_def spec_doubleAverage_def f)
  next
    case (Cons p ps)
    have "average field vitals =
            map_option round
              (doubleMean (map (\<lambda>v. the (field v)) (filter (\<lambda>v. field v \<noteq> None) vitals)))"
      unfolding average_def f fold n mathRound_round doubleMean_def
      using Cons by simp
    also have "\<dots> = spec_doubleAverage field vitals"
      unfolding spec_doubleAverage_def Cons by simp
    finally show ?thesis .
  qed
qed

lemma length_le_sum_abs:
  fixes zs :: "int list"
  assumes "\<forall>z \<in> set zs. z \<noteq> 0"
  shows "int (length zs) \<le> sum_list (map abs zs)"
  using assms by (induction zs) auto

lemma doubleMean_integers:
  fixes zs :: "int list"
  assumes ne: "zs \<noteq> []" and nz: "\<forall>z \<in> set zs. z \<noteq> 0"
    and small: "sum_list (map abs zs) < 2 ^ 52"
  shows "map_option round (doubleMean (map of_int zs))
           = Some (round (of_int (sum_list zs) / of_nat (length zs) :: rat))"
proof -
  have "foldl addDouble (Some (of_int 0)) (map of_int zs) = Some (of_int (0 + sum_list zs))"
    by (rule addDouble_integers) (use small in simp)
  then have sum: "foldl addDouble (Some 0) (map of_int zs) = Some (of_int (sum_list zs))"
    by simp
  have s: "\<bar>sum_list zs\<bar> < 2 ^ 52"
    using sum_list_abs [of zs] small by linarith
  have n0: "0 < length zs" using ne by simp
  have "int (length zs) < 2 ^ 52"
    using length_le_sum_abs [OF nz] small by linarith
  then have n: "length zs < 2 ^ 52"
    by (metis of_nat_less_iff of_nat_numeral of_nat_power)
  from toDouble_mean_round [OF s n0 n] obtain y
    where y: "toDouble (of_int (sum_list zs) / of_nat (length zs)) = Some y"
      and r: "\<lfloor>y + 1 / 2\<rfloor> = \<lfloor>(of_int (sum_list zs) / of_nat (length zs) :: rat) + 1 / 2\<rfloor>"
    by blast
  show ?thesis
    by (simp add: doubleMean_def sum divideDouble_def y round_def r)
qed

lemma sum_list_filter_le:
  fixes f :: "'a \<Rightarrow> rat"
  assumes "\<And>x. 0 \<le> f x"
  shows "sum_list (map f (filter P xs)) \<le> sum_list (map f xs)"
  by (induction xs) (auto intro: add_increasing assms)

lemma sum_list_of_int: "sum_list (map of_int zs) = (of_int (sum_list zs) :: rat)"
  by (induction zs) simp_all

lemma spec_doubleAverage_whole:
  assumes zero: "\<And>v. v \<in> set vitals \<Longrightarrow> field v \<noteq> Some 0"
    and whole: "wholeVitals field vitals"
  shows "spec_doubleAverage field vitals = Some (spec_average field vitals)"
proof (cases "filter (\<lambda>v. field v \<noteq> None) vitals")
  case Nil
  then show ?thesis
    by (simp add: spec_doubleAverage_def spec_average_def)
next
  case (Cons p ps)
  let ?hs = "filter (\<lambda>v. field v \<noteq> None) vitals"
  define xs where "xs = map (\<lambda>v. the (field v)) ?hs"
  define zs where "zs = map floor xs"
  have mem: "v \<in> set vitals \<and> field v \<noteq> None" if "v \<in> set ?hs" for v
    using that by simp
  have int: "of_int \<lfloor>x\<rfloor> = x" and nz: "x \<noteq> 0" if "x \<in> set xs" for x
  proof -
    from that obtain v where v: "v \<in> set ?hs" and x: "x = the (field v)"
      by (auto simp: xs_def)
    from mem [OF v] obtain y where y: "field v = Some y" and vin: "v \<in> set vitals"
      by auto
    from whole vin have "of_int \<lfloor>numberOf (field v)\<rfloor> = numberOf (field v)"
      by (simp add: wholeVitals_def list_all_iff)
    then show "of_int \<lfloor>x\<rfloor> = x"
      by (simp add: x y numberOf_def)
    from zero [OF vin] show "x \<noteq> 0"
      by (simp add: x y)
  qed
  have xs_zs: "map of_int zs = xs"
    unfolding zs_def by (simp add: map_idI int)
  have "xs \<noteq> []"
    unfolding xs_def Cons by simp
  then have ne: "zs \<noteq> []"
    by (simp add: zs_def)
  have nz': "\<forall>z \<in> set zs. z \<noteq> 0"
  proof
    fix z assume "z \<in> set zs"
    then obtain x where "x \<in> set xs" and "z = \<lfloor>x\<rfloor>"
      by (auto simp: zs_def)
    with int [of x] nz [of x] show "z \<noteq> 0" by auto
  qed
  have "map (\<lambda>v. \<bar>numberOf (field v)\<bar>) ?hs = map abs xs"
    unfolding xs_def by (auto simp: numberOf_def)
  then have "sum_list (map abs xs) = sum_list (map (\<lambda>v. \<bar>numberOf (field v)\<bar>) ?hs)"
    by simp
  also have "\<dots> \<le> sum_list (map (\<lambda>v. \<bar>numberOf (field v)\<bar>) vitals)"
    by (rule sum_list_filter_le) simp
  also have "\<dots> < 2 ^ 52"
    using whole by (simp add: wholeVitals_def)
  finally have bound: "sum_list (map abs xs) < 2 ^ 52" .
  have "map abs xs = map of_int (map abs zs)"
    unfolding xs_zs [symmetric] by simp
  then have "sum_list (map abs xs) = of_int (sum_list (map abs zs))"
    by (simp only: sum_list_of_int)
  with bound have "(of_int (sum_list (map abs zs)) :: rat) < of_int (2 ^ 52)"
    by simp
  then have small: "sum_list (map abs zs) < 2 ^ 52"
    by (simp only: of_int_less_iff)
  have sum: "sum_list xs = of_int (sum_list zs)"
    unfolding xs_zs [symmetric] by (rule sum_list_of_int)
  have len: "length xs = length zs"
    by (simp add: zs_def)
  have "spec_doubleAverage field vitals = map_option round (doubleMean xs)"
    unfolding spec_doubleAverage_def xs_def Cons by simp
  also have "\<dots> = Some (round (of_int (sum_list zs) / of_nat (length zs) :: rat))"
    unfolding xs_zs [symmetric] by (rule doubleMean_integers [OF ne nz' small])
  also have "\<dots> = Some (round (sum_list xs / of_nat (length xs)))"
    by (simp add: sum len)
  also have "\<dots> = Some (spec_average field vitals)"
    unfolding spec_average_def xs_def Cons by simp
  finally show ?thesis .
qed

lemma kv_getByPrefix_subset: "set (kv_getByPrefix kv p) \<subseteq> snd ` set kv"
  by (auto simp: kv_getByPrefix_def)

lemma storeZeroFree_iff: "storeZeroFree kv \<longleftrightarrow> (\<forall>e \<in> snd ` set kv. zeroFree e)"
  by (auto simp: storeZeroFree_def list_all_iff)

lemma storeZeroFree_kv_set:
  "storeZeroFree kv \<Longrightarrow> zeroFree val \<Longrightarrow> storeZeroFree (kv_set kv key val)"
  unfolding storeZeroFree_iff
  using kv_set_entries [of kv key val] by fastforce

lemma storeZeroFree_storeAlerts:
  "storeZeroFree kv \<Longrightarrow> storeZeroFree (storeAlerts patientId vitalId timestamp clock i alerts kv)"
proof (induction alerts arbitrary: i kv)
  case Nil
  then show ?case by simp
next
  case (Cons d rest)
  show ?case
    unfolding storeAlerts.simps Let_def
    by (rule Cons.IH, rule storeZeroFree_kv_set [OF Cons.prems])
       (simp add: zeroFree_def heartRateOf_def oxygenLevelOf_def temperatureOf_def)
qed

lemma or_null_not_zero: "or_null x \<noteq> Some 0"
  by (cases x) (auto simp: or_null_def)

lemma storeZeroFree_postVitals:
  assumes "storeZeroFree kv"
  shows "storeZeroFree (snd (postVitals authResult body timestamp ms clock kv))"
proof (cases authResult)
  case (AuthError m)
  with assms show ?thesis by (simp add: postVitals_def)
next
  case (AuthUser userId)
  show ?thesis
  proof (cases "b_patientId body")
    case None
    with AuthUser assms show ?thesis by (simp add: postVitals_def)
  next
    case (Some patientId)
    have "zeroFree (plain (Vital (mkVitalReading vid patientId body timestamp userId)))" for vid
      by (simp add: zeroFree_def heartRateOf_def oxygenLevelOf_def temperatureOf_def plain_def
          mkVitalReading_def or_null_not_zero)
    with Some AuthUser assms show ?thesis
      by (simp add: postVitals_def Let_def storeZeroFree_storeAlerts storeZeroFree_kv_set)
  qed
qed

lemma storeZeroFree_acknowledge:
  assumes "storeZeroFree kv"
  shows "storeZeroFree (snd (acknowledge authResult key now kv))"
proof (cases authResult)
  case (AuthError m)
  with assms show ?thesis by (simp add: acknowledge_def)
next
  case (AuthUser userId)
  show ?thesis
  proof (cases "kv_get kv key")
    case None
    with AuthUser assms show ?thesis by (simp add: acknowledge_def)
  next
    case (Some e)
    then have "(key, e) \<in> set kv"
      by (simp add: kv_get_def map_of_SomeD)
    with assms have "zeroFree e"
      by (force simp: storeZeroFree_iff)
    then have "zeroFree (e \<lparr> acknowledged := Some True, acknowledgedBy := Some userId,
                             acknowledgedAt := Some now \<rparr>)"
      by (simp add: zeroFree_def heartRateOf_def oxygenLevelOf_def temperatureOf_def)
    with Some AuthUser assms show ?thesis
      by (simp add: acknowledge_def Let_def storeZeroFree_kv_set)
  qed
qed


lemma aggregate_result:
  "\<exists>r. analyticsAggregate (AuthUser userId) cal now fresh periodQuery kv = Inr r \<and>
       aa_vitals r = filter (sinceCutoff (cutoffDate cal now fresh (periodOf periodQuery)))
                       (kv_getByPrefix kv ''vitals:'') \<and>
       as_totalReadings (aa_stats r) = length (aa_vitals r) \<and>
       as_avgHeartRate (aa_stats r) = average heartRateOf (aa_vitals r) \<and>
       as_avgOxygenLevel (aa_stats r) = average oxygenLevelOf (aa_vitals r)"
  by (simp add: analyticsAggregate_def Let_def aggregateStats_def)

lemma patient_result:
  "\<exists>r. analyticsPatient (AuthUser userId) cal now fresh patientId periodQuery kv = Inr r \<and>
       pa_vitals r = sort_key sortKey
                       (filter (sinceCutoff (cutoffDate cal now fresh (periodOf periodQuery)))
                          (kv_getByPrefix kv (''vitals:'' @ patientId @ '':''))) \<and>
       ps_totalReadings (pa_stats r) = length (pa_vitals r)"
  by (simp add: analyticsPatient_def Let_def patientStats_def)

lemma showInt_1001: "showInt 1001 = ''1001''"
  by (simp add: showInt_def showNat.simps)

lemma showInt_1002: "showInt 1002 = ''1002''"
  by (simp add: showInt_def showNat.simps)

lemma example_cutoff:
  "cutoffDate exampleCalendar 2000 2000 (periodOf (Some ''7days'')) = - 604798000"
  by (simp add: cutoffDate_def periodOf_def exampleCalendar_def)

lemma stored_reading_timestamp:
  "timestampOf (plain (Vital (mkVitalReading vitalId patientId body timestamp userId)))
     = Some timestamp"
  by (simp add: timestampOf_def plain_def mkVitalReading_def)

lemma stored_reading_heartRate:
  "heartRateOf (plain (Vital (mkVitalReading vitalId patientId body timestamp userId)))
     = or_null (b_heartRate body)"
  by (simp add: heartRateOf_def plain_def mkVitalReading_def)

lemma storeOfThree_vitals:
  assumes "deriveAlerts (body_of h1 None o1 None) = []"
    and "deriveAlerts (body_of h2 None o2 None) = []"
    and "deriveAlerts (body_of h3 None o3 None) = []"
  shows "storeOfThree (body_of h1 None o1 None) (body_of h2 None o2 None) (body_of h3 None o3 None)
     = [(''vitals:p1:1000'',
         plain (Vital (mkVitalReading ''vitals:p1:1000'' ''p1'' (body_of h1 None o1 None) 1000 ''d1''))),
        (''vitals:p1:1001'',
         plain (Vital (mkVitalReading ''vitals:p1:1001'' ''p1'' (body_of h2 None o2 None) 1001 ''d1''))),
        (''vitals:p1:1002'',
         plain (Vital (mkVitalReading ''vitals:p1:1002'' ''p1'' (body_of h3 None o3 None) 1002 ''d1'')))]"
proof -
  have p: "b_patientId (body_of h bp o2 t) = Some ''p1''" for h bp o2 t
    by (simp add: body_of_def)
  show ?thesis
    by (simp add: storeOfThree_def postVitals_def Let_def assms p showInt_1000 showInt_1001
        showInt_1002)
qed


lemma present_fields:
  "map (\<lambda>v. the (field v)) (filter (\<lambda>v. field v \<noteq> None) vitals)
     = List.map_filter id (map field vitals)"
  by (induction vitals) (auto simp: List.map_filter_simps)

lemma spec_doubleAverage_fields:
  "spec_doubleAverage field vitals =
     (case List.map_filter id (map field vitals) of
        [] \<Rightarrow> Some 0
      | y # ys \<Rightarrow> map_option round (doubleMean (y # ys)))"
proof (cases "filter (\<lambda>v. field v \<noteq> None) vitals")
  case Nil
  with present_fields [of field vitals] show ?thesis
    by (simp add: spec_doubleAverage_def)
next
  case (Cons p ps)
  with present_fields [of field vitals] show ?thesis
    by (auto simp: spec_doubleAverage_def split: list.splits)
qed

lemma spec_average_fields:
  "spec_average field vitals =
     (case List.map_filter id (map field vitals) of
        [] \<Rightarrow> 0
      | y # ys \<Rightarrow> round (sum_list (y # ys) / of_nat (length (y # ys))))"
proof (cases "filter (\<lambda>v. field v \<noteq> None) vitals")
  case Nil
  with present_fields [of field vitals] show ?thesis
    by (simp add: spec_average_def)
next
  case (Cons p ps)
  have "length (List.map_filter id (map field vitals)) = length (p # ps)"
    unfolding present_fields [symmetric] Cons by simp
  with Cons present_fields [of field vitals] show ?thesis
    by (auto simp: spec_average_def split: list.splits)
qed

lemma average_fields:
  assumes "Some 0 \<notin> set (map field vitals)"
  shows "average field vitals =
     (case List.map_filter id (map field vitals) of
        [] \<Rightarrow> Some 0
      | y # ys \<Rightarrow> map_option round (doubleMean (y # ys)))"
proof -
  have "field v \<noteq> Some 0" if "v \<in> set vitals" for v
    using assms that by force
  then have "average field vitals = spec_doubleAverage field vitals"
    by (rule average_present)
  then show ?thesis
    by (simp only: spec_doubleAverage_fields)
qed

lemma doubleMean_fractions:
  "map_option round (doubleMean [64.1, 64.3, 65.1]) = Some 64"
  by code_simp

lemma doubleMean_tie:
  "map_option round (doubleMean [64.5, 64.49999999999999]) = Some 65"
  by code_simp

lemma wholeStore_vitals:
  "wholeStore =
     [(''vitals:p1:1000'',
       plain (Vital (mkVitalReading ''vitals:p1:1000'' ''p1'' (body_of (Some 60) None None None) 1000 ''d1''))),
      (''vitals:p1:1001'',
       plain (Vital (mkVitalReading ''vitals:p1:1001'' ''p1'' (body_of (Some 100) None None None) 1001 ''d1''))),
      (''vitals:p1:1002'',
       plain (Vital (mkVitalReading ''vitals:p1:1002'' ''p1'' (body_of None None (Some 98) None) 1002 ''d1'')))]"
  unfolding wholeStore_def
  by (rule storeOfThree_vitals) (simp_all add: deriveAlerts_def body_of_def)

lemma fractionStore_vitals:
  "fractionStore =
     [(''vitals:p1:1000'',
       plain (Vital (mkVitalReading ''vitals:p1:1000'' ''p1'' (body_of (Some 64.1) None None None) 1000 ''d1''))),
      (''vitals:p1:1001'',
       plain (Vital (mkVitalReading ''vitals:p1:1001'' ''p1'' (body_of (Some 64.3) None None None) 1001 ''d1''))),
      (''vitals:p1:1002'',
       plain (Vital (mkVitalReading ''vitals:p1:1002'' ''p1'' (body_of (Some 65.1) None None None) 1002 ''d1'')))]"
  unfolding fractionStore_def
  by (rule storeOfThree_vitals) (simp_all add: deriveAlerts_def body_of_def)

lemma tieStore_vitals:
  "tieStore =
     [(''vitals:p1:1000'',
       plain (Vital (mkVitalReading ''vitals:p1:1000'' ''p1'' (body_of (Some 64.5) None None None) 1000 ''d1''))),
      (''vitals:p1:1001'',
       plain (Vital (mkVitalReading ''vitals:p1:1001'' ''p1''
                       (body_of (Some 64.49999999999999) None None None) 1001 ''d1''))),
      (''vitals:p1:1002'',
       plain (Vital (mkVitalReading ''vitals:p1:1002'' ''p1'' (body_of None None (Some 98) None) 1002 ''d1'')))]"
  unfolding tieStore_def
  by (rule storeOfThree_vitals) (simp_all add: deriveAlerts_def body_of_def)

text \<open>
  What the aggregate handler returns for a store of three readings of patient \<open>p1\<close>
  taken at instants 1000, 1001 and 1002, asked at instant 2000 for the last seven days.
\<close>

lemma aggregate_of_three:
  assumes store: "kv =
     [(''vitals:p1:1000'', plain (Vital (mkVitalReading ''vitals:p1:1000'' ''p1'' b1 1000 ''d1''))),
      (''vitals:p1:1001'', plain (Vital (mkVitalReading ''vitals:p1:1001'' ''p1'' b2 1001 ''d1''))),
      (''vitals:p1:1002'', plain (Vital (mkVitalReading ''vitals:p1:1002'' ''p1'' b3 1002 ''d1'')))]"
  shows "\<exists>r. analyticsAggregate (AuthUser ''d1'') exampleCalendar 2000 2000 (Some ''7days'') kv = Inr r \<and>
    map heartRateOf (aa_vitals r)
      = [or_null (b_heartRate b1), or_null (b_heartRate b2), or_null (b_heartRate b3)] \<and>
    as_totalReadings (aa_stats r) = 3 \<and>
    as_avgHeartRate (aa_stats r) = average heartRateOf (aa_vitals r)"
proof -
  from aggregate_result [of "''d1''" exampleCalendar 2000 2000 "Some ''7days''" kv]
  obtain r where r: "analyticsAggregate (AuthUser ''d1'') exampleCalendar 2000 2000 (Some ''7days'') kv = Inr r"
    and v: "aa_vitals r = filter (sinceCutoff (cutoffDate exampleCalendar 2000 2000 (periodOf (Some ''7days''))))
                       (kv_getByPrefix kv ''vitals:'')"
    and t: "as_totalReadings (aa_stats r) = length (aa_vitals r)"
    and a: "as_avgHeartRate (aa_stats r) = average heartRateOf (aa_vitals r)"
    by blast
  have "aa_vitals r =
     [plain (Vital (mkVitalReading ''vitals:p1:1000'' ''p1'' b1 1000 ''d1'')),
      plain (Vital (mkVitalReading ''vitals:p1:1001'' ''p1'' b2 1001 ''d1'')),
      plain (Vital (mkVitalReading ''vitals:p1:1002'' ''p1'' b3 1002 ''d1''))]"
    unfolding v example_cutoff store
    by (simp add: kv_getByPrefix_def sinceCutoff_def stored_reading_timestamp)
  then have "map heartRateOf (aa_vitals r)
      = [or_null (b_heartRate b1), or_null (b_heartRate b2), or_null (b_heartRate b3)]"
    and "length (aa_vitals r) = 3"
    by (simp_all add: stored_reading_heartRate)
  with r t a show ?thesis by simp
qed

lemma patient_of_three:
  assumes store: "kv =
     [(''vitals:p1:1000'', plain (Vital (mkVitalReading ''vitals:p1:1000'' ''p1'' b1 1000 ''d1''))),
      (''vitals:p1:1001'', plain (Vital (mkVitalReading ''vitals:p1:1001'' ''p1'' b2 1001 ''d1''))),
      (''vitals:p1:1002'', plain (Vital (mkVitalReading ''vitals:p1:1002'' ''p1'' b3 1002 ''d1'')))]"
  shows "\<exists>r. analyticsPatient (AuthUser ''d1'') exampleCalendar 2000 2000 ''p1'' (Some ''7days'') kv = Inr r \<and>
    map heartRateOf (pa_vitals r)
      = [or_null (b_heartRate b1), or_null (b_heartRate b2), or_null (b_heartRate b3)] \<and>
    ps_totalReadings (pa_stats r) = 3"
proof -
  from patient_result [of "''d1''" exampleCalendar 2000 2000 "''p1''" "Some ''7days''" kv]
  obtain r where r: "analyticsPatient (AuthUser ''d1'') exampleCalendar 2000 2000 ''p1'' (Some ''7days'') kv = Inr r"
    and v: "pa_vitals r = sort_key sortKey
              (filter (sinceCutoff (cutoffDate exampleCalendar 2000 2000 (periodOf (Some ''7days''))))
                 (kv_getByPrefix kv (''vitals:'' @ ''p1'' @ '':'')))"
    and t: "ps_totalReadings (pa_stats r) = length (pa_vitals r)"
    by blast
  have "pa_vitals r =
     [plain (Vital (mkVitalReading ''vitals:p1:1000'' ''p1'' b1 1000 ''d1'')),
      plain (Vital (mkVitalReading ''vitals:p1:1001'' ''p1'' b2 1001 ''d1'')),
      plain (Vital (mkVitalReading ''vitals:p1:1002'' ''p1'' b3 1002 ''d1''))]"
    unfolding v example_cutoff store
    by (simp add: kv_getByPrefix_def sinceCutoff_def sortKey_def stored_reading_timestamp)
  then have "map heartRateOf (pa_vitals r)
      = [or_null (b_heartRate b1), or_null (b_heartRate b2), or_null (b_heartRate b3)]"
    and "length (pa_vitals r) = 3"
    by (simp_all add: stored_reading_heartRate)
  with r t show ?thesis by simp
qed


text \<open>
  C5, as amended. The handlers that write the store keep it free of vitals equal to zero,
  since ingestion stores each vital as \<^verbatim>\<open>x || null\<close>. On such a store, for the readings
  that the aggregate handler returns, \<open>totalReadings\<close> is their number, and
  \<open>avgHeartRate\<close> and \<open>avgOxygenLevel\<close> are the mean over exactly the readings that
  have the field, taken in double arithmetic (the values added from the left, the sum
  divided by their count) and rounded to the nearest integer, and 0 when no reading has
  the field. When the values of the field are whole numbers whose absolute values sum to
  less than \<open>2 ^ 52\<close>, this is the arithmetic mean rounded to the nearest integer. The
  patient handler counts \<open>totalReadings\<close> in the same way. For the store of three
  readings with heart rates 60, 100 and none, the average is 80 and the total is 3.
\<close>

theorem aggregate_averages:
  "(storeZeroFree kv \<longrightarrow>
      storeZeroFree (snd (postVitals authResult body timestamp ms clock kv)) \<and>
      storeZeroFree (snd (acknowledge authResult key now kv)) \<and>
      (case analyticsAggregate (AuthUser userId) cal now fresh periodQuery kv of
         Inl err \<Rightarrow> False
       | Inr r \<Rightarrow>
           as_totalReadings (aa_stats r) = length (aa_vitals r) \<and>
           as_avgHeartRate (aa_stats r) = spec_doubleAverage heartRateOf (aa_vitals r) \<and>
           as_avgOxygenLevel (aa_stats r) = spec_doubleAverage oxygenLevelOf (aa_vitals r) \<and>
           (wholeVitals heartRateOf (aa_vitals r) \<longrightarrow>
              as_avgHeartRate (aa_stats r) = Some (spec_average heartRateOf (aa_vitals r))) \<and>
           (wholeVitals oxygenLevelOf (aa_vitals r) \<longrightarrow>
              as_avgOxygenLevel (aa_stats r) = Some (spec_average oxygenLevelOf (aa_vitals r))))) \<and>
   (case analyticsPatient (AuthUser userId) cal now fresh patientId periodQuery kv of
      Inl err \<Rightarrow> False
    | Inr r \<Rightarrow> ps_totalReadings (pa_stats r) = length (pa_vitals r)) \<and>
   (case analyticsAggregate (AuthUser ''d1'') exampleCalendar 2000 2000 (Some ''7days'') wholeStore of
      Inl err \<Rightarrow> False
    | Inr r \<Rightarrow>
        map heartRateOf (aa_vitals r) = [Some 60, Some 100, None] \<and>
        as_avgHeartRate (aa_stats r) = Some 80 \<and>
        as_totalReadings (aa_stats r) = 3) \<and>
   (case analyticsPatient (AuthUser ''d1'') exampleCalendar 2000 2000 ''p1'' (Some ''7days'') wholeStore of
      Inl err \<Rightarrow> False
    | Inr r \<Rightarrow>
        map heartRateOf (pa_vitals r) = [Some 60, Some 100, None] \<and>
        ps_totalReadings (pa_stats r) = 3)"
proof (intro conjI impI)
  assume z: "storeZeroFree kv"
  show "storeZeroFree (snd (postVitals authResult body timestamp ms clock kv))"
    by (rule storeZeroFree_postVitals [OF z])
  show "storeZeroFree (snd (acknowledge authResult key now kv))"
    by (rule storeZeroFree_acknowledge [OF z])
  from aggregate_result [of userId cal now fresh periodQuery kv]
  obtain r where r: "analyticsAggregate (AuthUser userId) cal now fresh periodQuery kv = Inr r"
    and v: "aa_vitals r = filter (sinceCutoff (cutoffDate cal now fresh (periodOf periodQuery)))
                       (kv_getByPrefix kv ''vitals:'')"
    and t: "as_totalReadings (aa_stats r) = length (aa_vitals r)"
    and h: "as_avgHeartRate (aa_stats r) = average heartRateOf (aa_vitals r)"
    and o: "as_avgOxygenLevel (aa_stats r) = average oxygenLevelOf (aa_vitals r)"
    by blast
  have zf: "zeroFree e" if "e \<in> set (aa_vitals r)" for e
    using that z kv_getByPrefix_subset [of kv "''vitals:''"]
    by (auto simp: v storeZeroFree_iff)
  have zh: "heartRateOf e \<noteq> Some 0" and zo: "oxygenLevelOf e \<noteq> Some 0"
    if "e \<in> set (aa_vitals r)" for e
    using zf [OF that] by (simp_all add: zeroFree_def)
  have hr: "average heartRateOf (aa_vitals r) = spec_doubleAverage heartRateOf (aa_vitals r)"
    by (rule average_present) (rule zh)
  have o2: "average oxygenLevelOf (aa_vitals r) = spec_doubleAverage oxygenLevelOf (aa_vitals r)"
    by (rule average_present) (rule zo)
  have hw: "spec_doubleAverage heartRateOf (aa_vitals r)
              = Some (spec_average heartRateOf (aa_vitals r))"
    if "wholeVitals heartRateOf (aa_vitals r)"
    using zh that by (rule spec_doubleAverage_whole)
  have ow: "spec_doubleAverage oxygenLevelOf (aa_vitals r)
              = Some (spec_average oxygenLevelOf (aa_vitals r))"
    if "wholeVitals oxygenLevelOf (aa_vitals r)"
    using zo that by (rule spec_doubleAverage_whole)
  show "case analyticsAggregate (AuthUser userId) cal now fresh periodQuery kv of
         Inl err \<Rightarrow> False
       | Inr r \<Rightarrow>
           as_totalReadings (aa_stats r) = length (aa_vitals r) \<and>
           as_avgHeartRate (aa_stats r) = spec_doubleAverage heartRateOf (aa_vitals r) \<and>
           as_avgOxygenLevel (aa_stats r) = spec_doubleAverage oxygenLevelOf (aa_vitals r) \<and>
           (wholeVitals heartRateOf (aa_vitals r) \<longrightarrow>
              as_avgHeartRate (aa_stats r) = Some (spec_average heartRateOf (aa_vitals r))) \<and>
           (wholeVitals oxygenLevelOf (aa_vitals r) \<longrightarrow>
              as_avgOxygenLevel (aa_stats r) = Some (spec_average oxygenLevelOf (aa_vitals r)))"
    using t hw ow by (simp add: r h o hr o2)
next
  from patient_result [of userId cal now fresh patientId periodQuery kv]
  show "case analyticsPatient (AuthUser userId) cal now fresh patientId periodQuery kv of
      Inl err \<Rightarrow> False
    | Inr r \<Rightarrow> ps_totalReadings (pa_stats r) = length (pa_vitals r)"
    by auto
next
  from aggregate_of_three [OF wholeStore_vitals]
  obtain r where r: "analyticsAggregate (AuthUser ''d1'') exampleCalendar 2000 2000 (Some ''7days'')
                       wholeStore = Inr r"
    and hs: "map heartRateOf (aa_vitals r) = [Some 60, Some 100, None]"
    and t: "as_totalReadings (aa_stats r) = 3"
    and a: "as_avgHeartRate (aa_stats r) = average heartRateOf (aa_vitals r)"
    by (auto simp: body_of_def or_null_def)
  have "map_option round (doubleMean (map of_int [60, 100])) = Some 80"
    by (subst doubleMean_integers) (simp_all add: round_def floor_unique)
  then have m: "map_option round (doubleMean [60, 100]) = Some 80"
    by simp
  have "average heartRateOf (aa_vitals r) = Some 80"
    by (subst average_fields) (simp_all add: hs m List.map_filter_simps)
  with r hs t a
  show "case analyticsAggregate (AuthUser ''d1'') exampleCalendar 2000 2000 (Some ''7days'') wholeStore of
      Inl err \<Rightarrow> False
    | Inr r \<Rightarrow>
        map heartRateOf (aa_vitals r) = [Some 60, Some 100, None] \<and>
        as_avgHeartRate (aa_stats r) = Some 80 \<and>
        as_totalReadings (aa_stats r) = 3"
    by simp
next
  from patient_of_three [OF wholeStore_vitals]
  show "case analyticsPatient (AuthUser ''d1'') exampleCalendar 2000 2000 ''p1'' (Some ''7days'') wholeStore of
      Inl err \<Rightarrow> False
    | Inr r \<Rightarrow>
        map heartRateOf (pa_vitals r) = [Some 60, Some 100, None] \<and>
        ps_totalReadings (pa_stats r) = 3"
    by (auto simp: body_of_def or_null_def)
qed

lemma wholeStore_zeroFree: "storeZeroFree wholeStore"
  by (simp add: wholeStore_vitals storeZeroFree_def zeroFree_def heartRateOf_def
      oxygenLevelOf_def temperatureOf_def plain_def mkVitalReading_def body_of_def or_null_def)

theorem aggregate_averages_witness:
  "storeZeroFree wholeStore \<and>
   (case analyticsAggregate (AuthUser ''d1'') exampleCalendar 2000 2000 (Some ''7days'') wholeStore of
      Inl err \<Rightarrow> False
    | Inr r \<Rightarrow>
        wholeVitals heartRateOf (aa_vitals r) \<and>
        as_avgHeartRate (aa_stats r) = spec_doubleAverage heartRateOf (aa_vitals r) \<and>
        as_avgHeartRate (aa_stats r) = Some (spec_average heartRateOf (aa_vitals r)) \<and>
        spec_average heartRateOf (aa_vitals r) = 80)"
proof -
  from aggregate_of_three [OF wholeStore_vitals]
  obtain r where r: "analyticsAggregate (AuthUser ''d1'') exampleCalendar 2000 2000 (Some ''7days'')
                       wholeStore = Inr r"
    and hs: "map heartRateOf (aa_vitals r) = [Some 60, Some 100, None]"
    by (auto simp: body_of_def or_null_def)
  have "map (\<lambda>v. numberOf (heartRateOf v)) (aa_vitals r) = map numberOf (map heartRateOf (aa_vitals r))"
    by simp
  then have ns: "map (\<lambda>v. numberOf (heartRateOf v)) (aa_vitals r) = [60, 100, 0]"
    by (simp only: hs) (simp add: numberOf_def)
  have "list_all (\<lambda>x. of_int \<lfloor>x\<rfloor> = x) (map (\<lambda>v. numberOf (heartRateOf v)) (aa_vitals r))"
    by (simp only: ns) simp
  then have w1: "list_all (\<lambda>v. of_int \<lfloor>numberOf (heartRateOf v)\<rfloor> = numberOf (heartRateOf v))
                  (aa_vitals r)"
    by (simp add: list_all_iff)
  have "sum_list (map abs (map (\<lambda>v. numberOf (heartRateOf v)) (aa_vitals r))) < 2 ^ 52"
    by (simp only: ns) simp
  then have w2: "sum_list (map (\<lambda>v. \<bar>numberOf (heartRateOf v)\<bar>) (aa_vitals r)) < 2 ^ 52"
    by (simp add: comp_def)
  from w1 w2 have w: "wholeVitals heartRateOf (aa_vitals r)"
    by (simp add: wholeVitals_def)
  have s: "spec_average heartRateOf (aa_vitals r) = 80"
    by (simp add: spec_average_fields hs round_def floor_unique List.map_filter_simps)
  from wholeStore_zeroFree
    aggregate_averages [where kv = wholeStore and userId = "''d1''" and cal = exampleCalendar
      and now = 2000 and fresh = 2000 and periodQuery = "Some ''7days''"]
  have "case analyticsAggregate (AuthUser ''d1'') exampleCalendar 2000 2000 (Some ''7days'')
               wholeStore of
          Inl err \<Rightarrow> False
        | Inr r \<Rightarrow>
           as_totalReadings (aa_stats r) = length (aa_vitals r) \<and>
           as_avgHeartRate (aa_stats r) = spec_doubleAverage heartRateOf (aa_vitals r) \<and>
           as_avgOxygenLevel (aa_stats r) = spec_doubleAverage oxygenLevelOf (aa_vitals r) \<and>
           (wholeVitals heartRateOf (aa_vitals r) \<longrightarrow>
              as_avgHeartRate (aa_stats r) = Some (spec_average heartRateOf (aa_vitals r))) \<and>
           (wholeVitals oxygenLevelOf (aa_vitals r) \<longrightarrow>
              as_avgOxygenLevel (aa_stats r) = Some (spec_average oxygenLevelOf (aa_vitals r)))"
    by blast
  then have d: "as_avgHeartRate (aa_stats r) = spec_doubleAverage heartRateOf (aa_vitals r)"
    and e: "wholeVitals heartRateOf (aa_vitals r) \<longrightarrow>
              as_avgHeartRate (aa_stats r) = Some (spec_average heartRateOf (aa_vitals r))"
    unfolding r sum.case by blast+
  from wholeStore_zeroFree w d e s show ?thesis
    unfolding r sum.case by blast
qed

text \<open>
  C5 as the specification states it fails on doubles. For the store of three readings with
  heart rates 64.5, 64.49999999999999 and none, the sum of the two heart rates rounds to
  129, so the handler answers 65, and the arithmetic mean rounds to 64. For the store of
  three readings with heart rates 64.1, 64.3 and 65.1 the handler answers 64, and the
  arithmetic mean of the three decimals, 64.5, rounds to 65.
\<close>

theorem aggregate_average_not_rounded_mean:
  "storeZeroFree tieStore \<and>
   (case analyticsAggregate (AuthUser ''d1'') exampleCalendar 2000 2000 (Some ''7days'') tieStore of
      Inl err \<Rightarrow> False
    | Inr r \<Rightarrow>
        map heartRateOf (aa_vitals r) = [Some 64.5, Some 64.49999999999999, None] \<and>
        as_avgHeartRate (aa_stats r) = Some 65 \<and>
        spec_average heartRateOf (aa_vitals r) = 64) \<and>
   storeZeroFree fractionStore \<and>
   (case analyticsAggregate (AuthUser ''d1'') exampleCalendar 2000 2000 (Some ''7days'') fractionStore of
      Inl err \<Rightarrow> False
    | Inr r \<Rightarrow>
        map heartRateOf (aa_vitals r) = [Some 64.1, Some 64.3, Some 65.1] \<and>
        as_avgHeartRate (aa_stats r) = Some 64 \<and>
        spec_average heartRateOf (aa_vitals r) = 65)"
proof (intro conjI)
  show "storeZeroFree tieStore"
    by (simp add: tieStore_vitals storeZeroFree_def zeroFree_def heartRateOf_def
        oxygenLevelOf_def temperatureOf_def plain_def mkVitalReading_def body_of_def or_null_def)
  show "storeZeroFree fractionStore"
    by (simp add: fractionStore_vitals storeZeroFree_def zeroFree_def heartRateOf_def
        oxygenLevelOf_def temperatureOf_def plain_def mkVitalReading_def body_of_def or_null_def)
next
  from aggregate_of_three [OF tieStore_vitals]
  obtain r where r: "analyticsAggregate (AuthUser ''d1'') exampleCalendar 2000 2000 (Some ''7days'')
                       tieStore = Inr r"
    and hs: "map heartRateOf (aa_vitals r) = [Some 64.5, Some 64.49999999999999, None]"
    and a: "as_avgHeartRate (aa_stats r) = average heartRateOf (aa_vitals r)"
    by (auto simp: body_of_def or_null_def)
  have avg: "average heartRateOf (aa_vitals r) = Some 65"
    by (subst average_fields) (simp_all add: hs doubleMean_tie [simplified] List.map_filter_simps)
  have s: "spec_average heartRateOf (aa_vitals r) = 64"
    by (simp add: spec_average_fields hs round_def floor_unique List.map_filter_simps)
  from r hs a avg s
  show "case analyticsAggregate (AuthUser ''d1'') exampleCalendar 2000 2000 (Some ''7days'') tieStore of
      Inl err \<Rightarrow> False
    | Inr r \<Rightarrow>
        map heartRateOf (aa_vitals r) = [Some 64.5, Some 64.49999999999999, None] \<and>
        as_avgHeartRate (aa_stats r) = Some 65 \<and>
        spec_average heartRateOf (aa_vitals r) = 64"
    by simp
next
  from aggregate_of_three [OF fractionStore_vitals]
  obtain r where r: "analyticsAggregate (AuthUser ''d1'') exampleCalendar 2000 2000 (Some ''7days'')
                       fractionStore = Inr r"
    and hs: "map heartRateOf (aa_vitals r) = [Some 64.1, Some 64.3, Some 65.1]"
    and a: "as_avgHeartRate (aa_stats r) = average heartRateOf (aa_vitals r)"
    by (auto simp: body_of_def or_null_def)
  have avg: "average heartRateOf (aa_vitals r) = Some 64"
    by (subst average_fields) (simp_all add: hs doubleMean_fractions List.map_filter_simps)
  have s: "spec_average heartRateOf (aa_vitals r) = 65"
    by (simp add: spec_average_fields hs round_def floor_unique List.map_filter_simps)
  from r hs a avg s
  show "case analyticsAggregate (AuthUser ''d1'') exampleCalendar 2000 2000 (Some ''7days'') fractionStore of
      Inl err \<Rightarrow> False
    | Inr r \<Rightarrow>
        map heartRateOf (aa_vitals r) = [Some 64.1, Some 64.3, Some 65.1] \<and>
        as_avgHeartRate (aa_stats r) = Some 64 \<and>
        spec_average heartRateOf (aa_vitals r) = 65"
    by simp
qed

section \<open>A vital of zero is an absent vital\<close>




end
